theory Spec2Isabelle
  imports Complex_Main
begin

section \<open>Library functions the package calls\<close>

text \<open>
  The package is one Go file, \<^verbatim>\<open>jwt.go\<close>. It calls the Go standard library
  (\<^verbatim>\<open>strings\<close>, \<^verbatim>\<open>encoding/base64\<close>, \<^verbatim>\<open>encoding/json\<close>,
  \<^verbatim>\<open>time\<close>). A Go \<^verbatim>\<open>string\<close> and a \<^verbatim>\<open>[]byte\<close> are both
  sequences of bytes; both are \<^typ>\<open>string\<close> here (a list of 8-bit characters), and the
  conversions between them are the identity.
\<close>

type_synonym bytes = string

subsection \<open>Package strings\<close>

text \<open>
  \<^verbatim>\<open>strings.Split(s, sep)\<close> for a separator of one byte (the package only splits on
  \<^verbatim>\<open>"."\<close>): the pieces between the separators, one more piece than there are
  separators, so the empty string splits into one empty piece.
\<close>

fun Split_from :: "string \<Rightarrow> string \<Rightarrow> char \<Rightarrow> string list" where
  "Split_from piece [] sep = [piece]"
| "Split_from piece (c # cs) sep =
     (if c = sep then piece # Split_from [] cs sep
      else Split_from (piece @ [c]) cs sep)"

definition Split :: "string \<Rightarrow> char \<Rightarrow> string list" where
  "Split s sep = Split_from [] s sep"

text \<open>\<^verbatim>\<open>strings.Join(elems, sep)\<close>.\<close>

fun Join :: "string list \<Rightarrow> string \<Rightarrow> string" where
  "Join [] sep = []"
| "Join [x] sep = x"
| "Join (x # y # ys) sep = x @ sep @ Join (y # ys) sep"

text \<open>\<^verbatim>\<open>strings.TrimRight(s, cutset)\<close>: drop the trailing bytes that are in the cutset.\<close>

definition TrimRight :: "string \<Rightarrow> string \<Rightarrow> string" where
  "TrimRight s cutset = rev (dropWhile (\<lambda>c. c \<in> set cutset) (rev s))"

text \<open>\<^verbatim>\<open>strconv.Itoa\<close>: an integer in decimal.\<close>

definition digit_char :: "int \<Rightarrow> char" where
  "digit_char d = ''0123456789'' ! nat (d mod 10)"

function decimal :: "int \<Rightarrow> string" where
  "decimal n = (if n < 10 then [digit_char n] else decimal (n div 10) @ [digit_char n])"
  by pat_completeness auto
termination
  by (relation "measure nat") auto

declare decimal.simps [simp del]

definition Itoa :: "int \<Rightarrow> string" where
  "Itoa n = (if n < 0 then CHR ''-'' # decimal (- n) else decimal n)"

subsection \<open>Package encoding/base64, the encoding URLEncoding\<close>

text \<open>
  \<^verbatim>\<open>base64.URLEncoding\<close> is the URL-safe alphabet of RFC 4648 with the padding
  character \<^verbatim>\<open>=\<close>, not strict about trailing bits. The model follows the library's
  \<^verbatim>\<open>Encode\<close>, \<^verbatim>\<open>Decode\<close> and \<^verbatim>\<open>decodeQuantum\<close> as they are in the
  current releases of Go: the decoder skips \<^verbatim>\<open>\r\<close> and \<^verbatim>\<open>\n\<close> wherever
  they stand, wants a final quantum of two or three digits to be completed by padding, and
  rejects anything but line ends after the padding. The bytes that the library returns
  together with an error are left out, since jwt.go only looks at the error. The library's
  unsigned values are at most 24 bits wide here, so they are natural numbers, with the
  shifts written as division (\<open>262144 = 2 ^ 18\<close>, \<open>4096 = 2 ^ 12\<close>,
  \<open>65536 = 2 ^ 16\<close>) and the mask \<^verbatim>\<open>&0x3F\<close> as \<open>mod 64\<close>; the conversion
  \<^verbatim>\<open>byte(v)\<close> is \<^const>\<open>char_of\<close>, which keeps the low eight bits.
\<close>

definition encodeURL :: string where
  "encodeURL = ''ABCDEFGHIJKLMNOPQRSTUVWXYZabcdefghijklmnopqrstuvwxyz0123456789-_''"

definition padChar :: char where
  "padChar = CHR ''=''"

text \<open>\<^verbatim>\<open>enc.encode[v & 0x3F]\<close>.\<close>

definition encode6 :: "nat \<Rightarrow> char" where
  "encode6 v = encodeURL ! (v mod 64)"

fun EncodeToString :: "bytes \<Rightarrow> string" where
  "EncodeToString [] = []"
| "EncodeToString [a] =
     (let val = of_char a * 65536
      in [encode6 (val div 262144), encode6 (val div 4096), padChar, padChar])"
| "EncodeToString [a, b] =
     (let val = of_char a * 65536 + of_char b * 256
      in [encode6 (val div 262144), encode6 (val div 4096), encode6 (val div 64), padChar])"
| "EncodeToString (a # b # c # rest) =
     (let val = of_char a * 65536 + of_char b * 256 + of_char c
      in [encode6 (val div 262144), encode6 (val div 4096), encode6 (val div 64), encode6 val]
         @ EncodeToString rest)"

text \<open>
  \<^verbatim>\<open>enc.decodeMap[in]\<close>: the position of a byte in the alphabet; the library's
  \<^verbatim>\<open>0xff\<close> for a byte outside it is \<open>None\<close>.
\<close>

fun index_of :: "char \<Rightarrow> string \<Rightarrow> nat option" where
  "index_of c [] = None"
| "index_of c (x # xs) =
     (if c = x then Some 0 else map_option Suc (index_of c xs))"

definition decodeMap :: "char \<Rightarrow> nat option" where
  "decodeMap c = index_of c encodeURL"

definition is_newline :: "char \<Rightarrow> bool" where
  "is_newline c = (c = CHR 0x0A \<or> c = CHR 0x0D)"

text \<open>
  \<^verbatim>\<open>CorruptInputError(n)\<close>, whose message is
  \<^verbatim>\<open>"illegal base64 data at input byte n"\<close>.
\<close>

datatype CorruptInputError = CorruptInputError nat

fun CorruptInputError_Error :: "CorruptInputError \<Rightarrow> string" where
  "CorruptInputError_Error (CorruptInputError n) =
     ''illegal base64 data at input byte '' @ Itoa (int n)"

text \<open>
  The bytes a quantum of \<open>dlen\<close> digits gives: \<open>dlen - 1\<close> of the three bytes of
  the 24-bit value of the digits, the missing digits being zero.
\<close>

definition quantum_bytes :: "nat list \<Rightarrow> bytes" where
  "quantum_bytes dbuf =
     (let d = dbuf @ replicate (4 - length dbuf) 0;
          val = (d ! 0) * 262144 + (d ! 1) * 4096 + (d ! 2) * 64 + (d ! 3)
      in take (length dbuf - 1)
           [char_of (val div 65536), char_of (val div 256), char_of val])"

text \<open>
  After the padding of the last quantum: line ends are skipped, and anything left is
  trailing garbage, reported at its offset.
\<close>

definition decode_finish :: "nat \<Rightarrow> nat list \<Rightarrow> string \<Rightarrow> CorruptInputError + bytes" where
  "decode_finish si dbuf src =
     (let rest = dropWhile is_newline src
      in if rest \<noteq> [] then Inl (CorruptInputError (si + length (takeWhile is_newline src)))
         else Inr (quantum_bytes dbuf))"

text \<open>
  \<^verbatim>\<open>Decode\<close>, one byte at a time: \<open>si\<close> is the offset of the next byte,
  \<open>dbuf\<close> the digits of the quantum read so far (\<open>j\<close> in the library is its length).
\<close>

fun decode_from :: "nat \<Rightarrow> nat list \<Rightarrow> string \<Rightarrow> CorruptInputError + bytes" where
  "decode_from si dbuf [] =
     (if dbuf = [] then Inr [] else Inl (CorruptInputError (si - length dbuf)))"
| "decode_from si dbuf (c # src) =
     (case decodeMap c of
        Some v \<Rightarrow>
          (if length dbuf = 3
           then (case decode_from (Suc si) [] src of
                   Inl e \<Rightarrow> Inl e
                 | Inr out \<Rightarrow> Inr (quantum_bytes (dbuf @ [v]) @ out))
           else decode_from (Suc si) (dbuf @ [v]) src)
      | None \<Rightarrow>
          if is_newline c then decode_from (Suc si) dbuf src
          else if c \<noteq> padChar then Inl (CorruptInputError si)
          else if length dbuf < 2 then Inl (CorruptInputError si)
          else if length dbuf = 2 then
            (let skipped = takeWhile is_newline src; rest = dropWhile is_newline src
             in if rest = [] then Inl (CorruptInputError (Suc si + length src))
                else if hd rest \<noteq> padChar
                then Inl (CorruptInputError (si + length skipped))
                else decode_finish (Suc (Suc si) + length skipped) dbuf (tl rest))
          else decode_finish (Suc si) dbuf src)"

definition DecodeString :: "string \<Rightarrow> CorruptInputError + bytes" where
  "DecodeString s = decode_from 0 [] s"

section \<open>The segment codec of jwt.go\<close>

definition EncodeSegment :: "bytes \<Rightarrow> string" where
  "EncodeSegment seg = TrimRight (EncodeToString seg) ''=''"

text \<open>The \<^verbatim>\<open>switch len(seg) % 4\<close> of \<^verbatim>\<open>DecodeSegment\<close>.\<close>

definition DecodeSegment_pad :: "string \<Rightarrow> string" where
  "DecodeSegment_pad seg =
     (if length seg mod 4 = 2 then seg @ ''==''
      else if length seg mod 4 = 3 then seg @ ''===''
      else seg)"

definition DecodeSegment :: "string \<Rightarrow> CorruptInputError + bytes" where
  "DecodeSegment seg = DecodeString (DecodeSegment_pad seg)"

section \<open>ValidationError\<close>

record ValidationError =
  err :: string
  Malformed :: bool
  Unverifiable :: bool
  SignatureInvalid :: bool
  Expired :: bool
  NotValidYet :: bool

definition ValidationError_Error :: "ValidationError \<Rightarrow> string" where
  "ValidationError_Error e = (if err e = [] then ''Token is invalid'' else err e)"

definition ValidationError_Valid :: "ValidationError \<Rightarrow> bool" where
  "ValidationError_Valid e =
     (if Malformed e \<or> Unverifiable e \<or> SignatureInvalid e \<or> Expired e \<or> NotValidYet e
      then False else True)"

section \<open>Tokens and signing methods\<close>

text \<open>
  A value of Go's \<^verbatim>\<open>interface{}\<close> as it stands in a header or in the claims: what
  \<^verbatim>\<open>encoding/json\<close> decodes into (nil, bool, float64, string, a slice, a map with
  string keys). A float64 that a JSON number decodes into is finite, so it is a rational
  number here. A \<^verbatim>\<open>map[string]interface{}\<close> is an association list read with
  \<^const>\<open>map_of\<close>; the nil map and the empty map are both \<open>[]\<close>.
\<close>

datatype json =
  JNull
| JBool bool
| JNumber rat
| JString string
| JArray "json list"
| JObject "(string \<times> json) list"

type_synonym jmap = "(string \<times> json) list"

text \<open>
  Modelled from the spec: the interface \<^verbatim>\<open>SigningMethod\<close> is declared in a file of
  the repository that is not among the sources. The spec gives it as
  \<^verbatim>\<open>name() -> string\<close> (\<^verbatim>\<open>Alg()\<close> in jwt.go),
  \<^verbatim>\<open>sign(signingInput, key) -> signature | error\<close> and
  \<^verbatim>\<open>verify(signingInput, signature, key) -> error-or-nil\<close>. A Go \<^verbatim>\<open>error\<close> is
  the string its \<^verbatim>\<open>Error()\<close> returns; nil is \<open>None\<close>.
\<close>

record SigningMethod =
  Alg :: string
  Sign :: "string \<Rightarrow> bytes \<Rightarrow> string + string"
  Verify :: "string \<Rightarrow> string \<Rightarrow> bytes \<Rightarrow> string option"

record Token =
  Raw :: string
  Header :: jmap
  Claims :: jmap
  Method :: "SigningMethod option"
  Signature :: string
  Valid :: bool

text \<open>
  \<^verbatim>\<open>Keyfunc\<close>: the callback gets the token parsed so far and returns the key or an
  error. It is taken not to change the token it is handed.
\<close>

type_synonym Keyfunc = "Token \<Rightarrow> string + bytes"

text \<open>
  What the package takes from outside jwt.go: \<^verbatim>\<open>json.Marshal\<close> and
  \<^verbatim>\<open>json.Unmarshal\<close> on a \<^verbatim>\<open>map[string]interface{}\<close>; the registry lookup
  \<^verbatim>\<open>GetSigningMethod\<close> (modelled from the spec: a function of the repository that
  is not among the sources, "look it up in the process-wide signing-method registry",
  nil when the name is not registered); the value of \<^verbatim>\<open>TimeFunc().Unix()\<close>, an
  int64; and the result of converting to int64 a float64 whose integer part is not an
  int64, which Go leaves to the implementation.
\<close>

record Env =
  json_Marshal :: "jmap \<Rightarrow> string + bytes"
  json_Unmarshal :: "bytes \<Rightarrow> string + jmap"
  GetSigningMethod :: "string \<Rightarrow> SigningMethod option"
  TimeFunc_Unix :: int
  int64_out_of_range :: "rat \<Rightarrow> int"

text \<open>The conversion \<^verbatim>\<open>int64(f)\<close> of a float64: the fraction is dropped.\<close>

definition int64 :: "Env \<Rightarrow> rat \<Rightarrow> int" where
  "int64 env f =
     (let t = (if 0 \<le> f then \<lfloor>f\<rfloor> else \<lceil>f\<rceil>)
      in if - (2 ^ 63) \<le> t \<and> t < 2 ^ 63 then t else int64_out_of_range env f)"

definition New :: "SigningMethod \<Rightarrow> Token" where
  "New method =
     \<lparr>Raw = [],
      Header = [(''typ'', JString ''JWT''), (''alg'', JString (Alg method))],
      Claims = [],
      Method = Some method,
      Signature = [],
      Valid = False\<rparr>"

text \<open>
  The loop of \<^verbatim>\<open>SigningString\<close> over the header and the claims: it returns at the
  first map that does not serialise.
\<close>

fun SigningString_parts :: "Env \<Rightarrow> jmap list \<Rightarrow> string + string list" where
  "SigningString_parts env [] = Inr []"
| "SigningString_parts env (source # rest) =
     (case json_Marshal env source of
        Inl e \<Rightarrow> Inl e
      | Inr jsonValue \<Rightarrow>
          (case SigningString_parts env rest of
             Inl e \<Rightarrow> Inl e
           | Inr parts \<Rightarrow> Inr (EncodeSegment jsonValue # parts)))"

definition SigningString :: "Env \<Rightarrow> Token \<Rightarrow> string + string" where
  "SigningString env t =
     (case SigningString_parts env [Header t, Claims t] of
        Inl e \<Rightarrow> Inl e
      | Inr parts \<Rightarrow> Inr (Join parts ''.''))"

text \<open>
  \<^verbatim>\<open>SignedString\<close> returns the string or an error; with a nil \<^verbatim>\<open>Method\<close> the
  call \<^verbatim>\<open>t.Method.Sign\<close> panics.
\<close>

datatype error = Error string | Panic_nil_Method

definition SignedString :: "Env \<Rightarrow> Token \<Rightarrow> bytes \<Rightarrow> error + string" where
  "SignedString env t key =
     (case SigningString env t of
        Inl e \<Rightarrow> Inl (Error e)
      | Inr sstr \<Rightarrow>
          (case Method t of
             None \<Rightarrow> Inl Panic_nil_Method
           | Some m \<Rightarrow>
               (case Sign m sstr key of
                  Inl e \<Rightarrow> Inl (Error e)
                | Inr sig \<Rightarrow> Inr (Join [sstr, sig] ''.''))))"

section \<open>Parse\<close>

text \<open>
  The calls \<^verbatim>\<open>Parse\<close> makes to the key callback and to the method's
  \<^verbatim>\<open>Verify\<close> are part of its result, in the order they happen.
  \<^verbatim>\<open>ParseFromRequest\<close>, which finds the token string in an HTTP request and hands
  it to \<^verbatim>\<open>Parse\<close>, is outside this development.
\<close>

datatype call = Keyfunc_call | Verify_call

definition no_error :: ValidationError where
  "no_error =
     \<lparr>err = [], Malformed = False, Unverifiable = False, SignatureInvalid = False,
      Expired = False, NotValidYet = False\<rparr>"

definition empty_Token :: Token where
  "empty_Token =
     \<lparr>Raw = [], Header = [], Claims = [], Method = None, Signature = [], Valid = False\<rparr>"

text \<open>Lines 126 to 139: the checks of \<^verbatim>\<open>exp\<close> and \<^verbatim>\<open>nbf\<close> against the clock.\<close>

definition check_exp :: "Env \<Rightarrow> Token \<Rightarrow> ValidationError \<Rightarrow> ValidationError" where
  "check_exp env token vErr =
     (case map_of (Claims token) ''exp'' of
        Some (JNumber exp') \<Rightarrow>
          if TimeFunc_Unix env > int64 env exp'
          then vErr\<lparr>err := ''Token is expired'', Expired := True\<rparr>
          else vErr
      | _ \<Rightarrow> vErr)"

definition check_nbf :: "Env \<Rightarrow> Token \<Rightarrow> ValidationError \<Rightarrow> ValidationError" where
  "check_nbf env token vErr =
     (case map_of (Claims token) ''nbf'' of
        Some (JNumber nbf) \<Rightarrow>
          if TimeFunc_Unix env < int64 env nbf
          then vErr\<lparr>err := ''Token is not valid yet'', NotValidYet := True\<rparr>
          else vErr
      | _ \<Rightarrow> vErr)"

text \<open>
  The two conditions of those lines: the claim is there, it is a number (a float64), and
  the current time is past it (\<^verbatim>\<open>exp\<close>) or before it (\<^verbatim>\<open>nbf\<close>).
\<close>

definition exp_passed :: "Env \<Rightarrow> jmap \<Rightarrow> bool" where
  "exp_passed env claims =
     (case map_of claims ''exp'' of
        Some (JNumber exp') \<Rightarrow> TimeFunc_Unix env > int64 env exp'
      | _ \<Rightarrow> False)"

definition nbf_ahead :: "Env \<Rightarrow> jmap \<Rightarrow> bool" where
  "nbf_ahead env claims =
     (case map_of claims ''nbf'' of
        Some (JNumber nbf) \<Rightarrow> TimeFunc_Unix env < int64 env nbf
      | _ \<Rightarrow> False)"

text \<open>Lines 141 to 145: the signature check.\<close>

definition check_signature ::
  "SigningMethod \<Rightarrow> string list \<Rightarrow> bytes \<Rightarrow> ValidationError \<Rightarrow> ValidationError" where
  "check_signature m parts key vErr =
     (case Verify m (Join (take 2 parts) ''.'') (parts ! 2) key of
        Some e \<Rightarrow> vErr\<lparr>err := e, SignatureInvalid := True\<rparr>
      | None \<Rightarrow> vErr)"

text \<open>Lines 119 to 152: from the key lookup on, for a token whose method is resolved.\<close>

definition Parse_validate ::
  "Env \<Rightarrow> Keyfunc \<Rightarrow> string list \<Rightarrow> SigningMethod \<Rightarrow> Token
     \<Rightarrow> Token option \<times> ValidationError option \<times> call list" where
  "Parse_validate env keyFunc parts m token =
     (case keyFunc token of
        Inl e \<Rightarrow> (Some token, Some (no_error\<lparr>err := e, Unverifiable := True\<rparr>), [Keyfunc_call])
      | Inr key \<Rightarrow>
          (let vErr = check_signature m parts key
                        (check_nbf env token (check_exp env token no_error))
           in if ValidationError_Valid vErr
              then (Some (token\<lparr>Valid := True\<rparr>), None, [Keyfunc_call, Verify_call])
              else (Some token, Some vErr, [Keyfunc_call, Verify_call])))"

text \<open>Lines 110 to 117: the lookup of the signing method named by the header.\<close>

definition Parse_method ::
  "Env \<Rightarrow> Keyfunc \<Rightarrow> string list \<Rightarrow> Token
     \<Rightarrow> Token option \<times> ValidationError option \<times> call list" where
  "Parse_method env keyFunc parts token =
     (case map_of (Header token) ''alg'' of
        Some (JString method) \<Rightarrow>
          (case GetSigningMethod env method of
             None \<Rightarrow>
               (Some token,
                Some (no_error\<lparr>err := ''Signing method (alg) is unavailable.'',
                                Unverifiable := True\<rparr>), [])
           | Some m \<Rightarrow> Parse_validate env keyFunc parts m (token\<lparr>Method := Some m\<rparr>))
      | _ \<Rightarrow>
          (Some token,
           Some (no_error\<lparr>err := ''Signing method (alg) is unspecified.'',
                           Unverifiable := True\<rparr>), []))"

text \<open>
  Lines 92 to 108: a segment is decoded and parsed into a map; either step can fail, and
  the message of the failure is what \<^verbatim>\<open>Parse\<close> reports.
\<close>

definition decode_map :: "Env \<Rightarrow> string \<Rightarrow> string + jmap" where
  "decode_map env seg =
     (case DecodeSegment seg of
        Inl e \<Rightarrow> Inl (CorruptInputError_Error e)
      | Inr segBytes \<Rightarrow> json_Unmarshal env segBytes)"

definition Parse ::
  "Env \<Rightarrow> string \<Rightarrow> Keyfunc \<Rightarrow> Token option \<times> ValidationError option \<times> call list" where
  "Parse env tokenString keyFunc =
     (let parts = Split tokenString (CHR ''.'')
      in if length parts = 3 then
           (let token = empty_Token\<lparr>Raw := tokenString\<rparr>
            in case decode_map env (parts ! 0) of
                 Inl e \<Rightarrow> (Some token, Some (no_error\<lparr>err := e, Malformed := True\<rparr>), [])
               | Inr header \<Rightarrow>
                   (case decode_map env (parts ! 1) of
                      Inl e \<Rightarrow>
                        (Some (token\<lparr>Header := header\<rparr>),
                         Some (no_error\<lparr>err := e, Malformed := True\<rparr>), [])
                    | Inr claims \<Rightarrow>
                        Parse_method env keyFunc parts
                          (token\<lparr>Header := header, Claims := claims\<rparr>)))
         else
           (None,
            Some (no_error\<lparr>err := ''Token contains an invalid number of segments'',
                            Malformed := True\<rparr>), []))"

section \<open>An environment to run the package in\<close>

text \<open>
  The theorems below hold for every environment. To run \<^const>\<open>Parse\<close> on a token a
  concrete one is needed: a JSON codec and a registered signing method.

  The codec covers a fragment of JSON on which it does what \<^verbatim>\<open>encoding/json\<close> does:
  one object, written without white space, whose values are strings, numbers, booleans
  and null. The strings are made of printable ASCII characters other than
  \<^verbatim>\<open>" \ < > &\<close> (which need no escape) and of bytes from \<^verbatim>\<open>0xF5\<close> up, which
  stand in no UTF-8 text: the library writes each of them as the escape
  \<^verbatim>\<open>\ufffd\<close> of the replacement character, and reads that escape as the three
  bytes of the replacement character. The numbers that are written are the integers below
  \<open>2 ^ 53\<close> in absolute value (which a float64 holds exactly and prints in full); the
  numbers that are read are those and the decimal fractions without exponent that a
  float64 holds exactly (\<open>m / 2 ^ k\<close> with \<open>m\<close> below \<open>2 ^ 53\<close>). Outside the
  fragment the codec reports an error, which the library need not do.
\<close>

definition outside_fragment :: string where
  "outside_fragment = ''json: outside the modelled fragment''"

definition plain_char :: "char \<Rightarrow> bool" where
  "plain_char c =
     (32 \<le> (of_char c :: nat) \<and> (of_char c :: nat) < 127 \<and> c \<noteq> CHR 0x22 \<and> c \<noteq> CHR 0x5C
      \<and> c \<noteq> CHR ''<'' \<and> c \<noteq> CHR ''>'' \<and> c \<noteq> CHR ''&'')"

fun plain_string :: "string \<Rightarrow> bool" where
  "plain_string [] = True"
| "plain_string (c # cs) = (plain_char c \<and> plain_string cs)"

definition quoted :: "string \<Rightarrow> string" where
  "quoted s = CHR 0x22 # s @ [CHR 0x22]"

definition never_utf8 :: "char \<Rightarrow> bool" where
  "never_utf8 c = (245 \<le> (of_char c :: nat))"

fun print_chars :: "string \<Rightarrow> string option" where
  "print_chars [] = Some []"
| "print_chars (c # cs) =
     (if plain_char c then map_option ((#) c) (print_chars cs)
      else if never_utf8 c then map_option ((@) (CHR 0x5C # ''ufffd'')) (print_chars cs)
      else None)"

fun print_value :: "json \<Rightarrow> string option" where
  "print_value JNull = Some ''null''"
| "print_value (JBool b) = Some (if b then ''true'' else ''false'')"
| "print_value (JNumber r) =
     (if r = of_int \<lfloor>r\<rfloor> \<and> \<bar>\<lfloor>r\<rfloor>\<bar> < 2 ^ 53
      then Some (Itoa \<lfloor>r\<rfloor>)
      else None)"
| "print_value (JString s) = map_option quoted (print_chars s)"
| "print_value (JArray xs) = None"
| "print_value (JObject m) = None"

text \<open>The library writes the keys of a map in the order of their bytes, each key once.\<close>

fun bytes_less :: "string \<Rightarrow> string \<Rightarrow> bool" where
  "bytes_less [] [] = False"
| "bytes_less [] (y # ys) = True"
| "bytes_less (x # xs) [] = False"
| "bytes_less (x # xs) (y # ys) =
     ((of_char x :: nat) < of_char y \<or> (x = y \<and> bytes_less xs ys))"

fun insert_key :: "string \<Rightarrow> string list \<Rightarrow> string list" where
  "insert_key k [] = [k]"
| "insert_key k (x # xs) =
     (if k = x then x # xs
      else if bytes_less k x then k # x # xs
      else x # insert_key k xs)"

definition sorted_keys :: "jmap \<Rightarrow> string list" where
  "sorted_keys m = foldr insert_key (map fst m) []"

fun print_members :: "jmap \<Rightarrow> string list \<Rightarrow> string list option" where
  "print_members m [] = Some []"
| "print_members m (k # ks) =
     (case map_of m k of
        None \<Rightarrow> None
      | Some v \<Rightarrow>
          (case print_value v of
             None \<Rightarrow> None
           | Some text \<Rightarrow>
               (if plain_string k
                then map_option ((#) (quoted k @ '':'' @ text)) (print_members m ks)
                else None)))"

definition fragment_Marshal :: "jmap \<Rightarrow> string + bytes" where
  "fragment_Marshal m =
     (case print_members m (sorted_keys m) of
        None \<Rightarrow> Inl outside_fragment
      | Some members \<Rightarrow> Inr (''{'' @ Join members '','' @ ''}''))"

text \<open>
  The parser reads the object byte by byte. A key that comes twice keeps its last value,
  as in the library.
\<close>

datatype pstate =
  P_start
| P_first
| P_key string
| P_colon string
| P_value string
| P_string string string
| P_escape string string string
| P_number string string
| P_literal string json string
| P_next
| P_comma
| P_done

definition put :: "string \<Rightarrow> json \<Rightarrow> jmap \<Rightarrow> jmap" where
  "put k v m = filter (\<lambda>e. fst e \<noteq> k) m @ [(k, v)]"

definition is_digit :: "char \<Rightarrow> bool" where
  "is_digit c = (48 \<le> (of_char c :: nat) \<and> (of_char c :: nat) \<le> 57)"

fun digits_value :: "string \<Rightarrow> int \<Rightarrow> int" where
  "digits_value [] acc = acc"
| "digits_value (c # cs) acc = digits_value cs (10 * acc + (of_char c - 48))"

fun all_digits :: "string \<Rightarrow> bool" where
  "all_digits [] = True"
| "all_digits (c # cs) = (is_digit c \<and> all_digits cs)"

text \<open>
  A number of the fragment: an optional minus sign, digits that do not start with a
  needless \<^verbatim>\<open>0\<close>, and optionally a point and \<open>k\<close> more digits. With \<open>n\<close> the
  value of all the digits, the number is \<open>n / 10 ^ k\<close>; a float64 holds it exactly when
  \<open>5 ^ k\<close> divides \<open>n\<close> and the quotient is below \<open>2 ^ 53\<close>. Minus zero is left out.
\<close>

definition number_value :: "string \<Rightarrow> json option" where
  "number_value text =
     (let neg = (text \<noteq> [] \<and> hd text = CHR ''-'');
          body = (if neg then tl text else text);
          ds = takeWhile is_digit body;
          after = dropWhile is_digit body;
          fs = (if after = [] then [] else tl after);
          k = length fs;
          n = digits_value (ds @ fs) 0
      in if ds = [] \<or> (hd ds = CHR ''0'' \<and> tl ds \<noteq> [])
            \<or> (after \<noteq> [] \<and> (hd after \<noteq> CHR ''.'' \<or> fs = [] \<or> \<not> all_digits fs))
            \<or> n mod 5 ^ k \<noteq> 0 \<or> 2 ^ 53 \<le> n div 5 ^ k \<or> 1000 < k \<or> (neg \<and> n = 0)
         then None
         else Some (JNumber ((if neg then - of_int (n div 5 ^ k) else of_int (n div 5 ^ k))
                             / 2 ^ k)))"

fun parse_object :: "pstate \<Rightarrow> jmap \<Rightarrow> string \<Rightarrow> jmap option" where
  "parse_object st m [] = (if st = P_done then Some m else None)"
| "parse_object P_start m (c # cs) =
     (if c = CHR ''{'' then parse_object P_first m cs else None)"
| "parse_object P_first m (c # cs) =
     (if c = CHR ''}'' then parse_object P_done m cs
      else if c = CHR 0x22 then parse_object (P_key []) m cs
      else None)"
| "parse_object P_comma m (c # cs) =
     (if c = CHR 0x22 then parse_object (P_key []) m cs else None)"
| "parse_object (P_key k) m (c # cs) =
     (if c = CHR 0x22 then parse_object (P_colon k) m cs
      else if plain_char c then parse_object (P_key (k @ [c])) m cs
      else None)"
| "parse_object (P_colon k) m (c # cs) =
     (if c = CHR '':'' then parse_object (P_value k) m cs else None)"
| "parse_object (P_value k) m (c # cs) =
     (if c = CHR 0x22 then parse_object (P_string k []) m cs
      else if c = CHR ''-'' \<or> is_digit c then parse_object (P_number k [c]) m cs
      else if c = CHR ''t'' then parse_object (P_literal k (JBool True) ''rue'') m cs
      else if c = CHR ''f'' then parse_object (P_literal k (JBool False) ''alse'') m cs
      else if c = CHR ''n'' then parse_object (P_literal k JNull ''ull'') m cs
      else None)"
| "parse_object (P_string k s) m (c # cs) =
     (if c = CHR 0x22 then parse_object P_next (put k (JString s) m) cs
      else if c = CHR 0x5C then parse_object (P_escape k s ''ufffd'') m cs
      else if plain_char c then parse_object (P_string k (s @ [c])) m cs
      else None)"
| "parse_object (P_escape k s want) m (c # cs) =
     (case want of
        [] \<Rightarrow> None
      | w # ws \<Rightarrow>
          if c \<noteq> w then None
          else if ws = [] then parse_object (P_string k (s @ [CHR 0xEF, CHR 0xBF, CHR 0xBD])) m cs
          else parse_object (P_escape k s ws) m cs)"
| "parse_object (P_number k text) m (c # cs) =
     (if is_digit c \<or> c = CHR ''.'' then parse_object (P_number k (text @ [c])) m cs
      else (case number_value text of
              None \<Rightarrow> None
            | Some v \<Rightarrow>
                if c = CHR '','' then parse_object P_comma (put k v m) cs
                else if c = CHR ''}'' then parse_object P_done (put k v m) cs
                else None))"
| "parse_object (P_literal k v want) m (c # cs) =
     (case want of
        [] \<Rightarrow> None
      | w # ws \<Rightarrow>
          if c \<noteq> w then None
          else if ws = [] then parse_object P_next (put k v m) cs
          else parse_object (P_literal k v ws) m cs)"
| "parse_object P_next m (c # cs) =
     (if c = CHR '','' then parse_object P_comma m cs
      else if c = CHR ''}'' then parse_object P_done m cs
      else None)"
| "parse_object P_done m (c # cs) = None"

definition fragment_Unmarshal :: "bytes \<Rightarrow> string + jmap" where
  "fragment_Unmarshal data =
     (if data = ''null'' then Inr []
      else (case parse_object P_start [] data of
              None \<Rightarrow> Inl outside_fragment
            | Some m \<Rightarrow> Inr m))"

text \<open>
  A signing method for the examples, registered as \<^verbatim>\<open>toy\<close>: the signature is the
  encoded segment of a three-byte checksum of the key followed by the signing string. It
  stands for the real algorithms, which the package only meets through the interface.
\<close>

definition toy_digest :: "bytes \<Rightarrow> string \<Rightarrow> bytes" where
  "toy_digest key signingString =
     (let s = sum_list (map of_char (key @ signingString)) :: nat
      in [char_of (s div 65536), char_of (s div 256), char_of s])"

definition toy_method :: SigningMethod where
  "toy_method =
     \<lparr>Alg = ''toy'',
      Sign = (\<lambda>signingString key. Inr (EncodeSegment (toy_digest key signingString))),
      Verify = (\<lambda>signingString signature key.
                  if signature = EncodeSegment (toy_digest key signingString) then None
                  else Some ''signature is invalid'')\<rparr>"

definition example_env :: "int \<Rightarrow> Env" where
  "example_env now =
     \<lparr>json_Marshal = fragment_Marshal,
      json_Unmarshal = fragment_Unmarshal,
      GetSigningMethod = (\<lambda>name. if name = ''toy'' then Some toy_method else None),
      TimeFunc_Unix = now,
      int64_out_of_range = (\<lambda>f. - (2 ^ 63))\<rparr>"

section \<open>Running the definitions\<close>

lemma char_eq_char_of_iff: "(c = char_of (n::nat)) = (take_bit 8 n = of_char c)"
  using char_of_eq_iff [of n c] by auto

lemma of_char_char_of_int: "(of_char (char_of (n::nat)) :: int) = int (n mod 256)"
  by (metis of_char_of of_nat_of_char)

lemmas run_base64 =
  DecodeSegment_def DecodeSegment_pad_def DecodeString_def decodeMap_def encodeURL_def
  is_newline_def padChar_def decode_finish_def quantum_bytes_def EncodeSegment_def
  TrimRight_def encode6_def char_of_eq_iff char_eq_char_of_iff of_char_char_of_int

lemmas run_json =
  fragment_Unmarshal_def fragment_Marshal_def plain_char_def never_utf8_def is_digit_def
  number_value_def
  put_def quoted_def sorted_keys_def outside_fragment_def Itoa_def decimal.simps
  digit_char_def

lemmas run_Parse =
  Parse_def Split_def decode_map_def empty_Token_def no_error_def Parse_method_def
  Parse_validate_def check_exp_def check_nbf_def check_signature_def
  ValidationError_Valid_def int64_def example_env_def toy_method_def toy_digest_def
  New_def SignedString_def SigningString_def

section \<open>ValidationError and New\<close>

text \<open>
  C7. \<^verbatim>\<open>Valid()\<close> of a \<^verbatim>\<open>ValidationError\<close> is true exactly when none of the five
  flags Malformed, Unverifiable, SignatureInvalid, Expired and NotValidYet is set.
\<close>

theorem Valid_iff_no_flag:
  "ValidationError_Valid e =
     (\<not> Malformed e \<and> \<not> Unverifiable e \<and> \<not> SignatureInvalid e \<and> \<not> Expired e
      \<and> \<not> NotValidYet e)"
  by (simp add: ValidationError_Valid_def)

text \<open>
  C8. A token made by \<^verbatim>\<open>New\<close> has an empty \<^verbatim>\<open>Raw\<close>, an empty
  \<^verbatim>\<open>Signature\<close>, \<^verbatim>\<open>Valid\<close> false, a header with exactly the two entries
  \<^verbatim>\<open>typ\<close> (the string JWT) and \<^verbatim>\<open>alg\<close> (the name of the method), and no claim.
\<close>

theorem New_token:
  "Raw (New method) = [] \<and> Signature (New method) = [] \<and> Valid (New method) = False
   \<and> map_of (Header (New method))
       = [''typ'' \<mapsto> JString ''JWT'', ''alg'' \<mapsto> JString (Alg method)]
   \<and> dom (map_of (Header (New method))) = {''typ'', ''alg''}
   \<and> Claims (New method) = []
   \<and> Method (New method) = Some method"
  by (auto simp: New_def)

section \<open>Parse: the failures that end it early\<close>

text \<open>
  C5. A string that does not split on \<^verbatim>\<open>.\<close> into exactly three segments is
  rejected with the Malformed flag; no token is returned, and neither the key callback nor
  \<^verbatim>\<open>Verify\<close> is called.
\<close>

theorem Parse_wrong_segment_count:
  assumes "length (Split tokenString (CHR ''.'')) \<noteq> 3"
  shows "Parse env tokenString keyFunc =
           (None,
            Some \<lparr>err = ''Token contains an invalid number of segments'', Malformed = True,
                  Unverifiable = False, SignatureInvalid = False, Expired = False,
                  NotValidYet = False\<rparr>,
            [])"
  using assms by (simp add: Parse_def no_error_def)

theorem Parse_wrong_segment_count_witness:
  "length (Split ''eyJhbGciOiJ0b3kiLCJ0eXAiOiJKV1QifQ.eyJhIjoxfQ'' (CHR ''.'')) \<noteq> 3
   \<and> Parse (example_env 2) ''eyJhbGciOiJ0b3kiLCJ0eXAiOiJKV1QifQ.eyJhIjoxfQ'' (\<lambda>t. Inr ''k'') =
           (None,
            Some \<lparr>err = ''Token contains an invalid number of segments'', Malformed = True,
                  Unverifiable = False, SignatureInvalid = False, Expired = False,
                  NotValidYet = False\<rparr>,
            [])"
proof -
  have h: "length (Split ''eyJhbGciOiJ0b3kiLCJ0eXAiOiJKV1QifQ.eyJhIjoxfQ'' (CHR ''.'')) \<noteq> 3"
    by (simp add: Split_def)
  show ?thesis
    using h Parse_wrong_segment_count [OF h, of "example_env 2" "\<lambda>t. Inr ''k''"] by simp
qed

text \<open>
  C6. For a token of three segments whose first two segments decode and parse, and whose
  header has no \<^verbatim>\<open>alg\<close> entry that is a string, \<^verbatim>\<open>Parse\<close> fails with the
  Unverifiable flag, and calls neither the key callback nor \<^verbatim>\<open>Verify\<close>.
\<close>

theorem Parse_alg_unspecified:
  assumes "Split tokenString (CHR ''.'') = [p0, p1, p2]"
    and "decode_map env p0 = Inr header"
    and "decode_map env p1 = Inr claims"
    and "\<forall>name. map_of header ''alg'' \<noteq> Some (JString name)"
  shows "Parse env tokenString keyFunc =
           (Some \<lparr>Raw = tokenString, Header = header, Claims = claims, Method = None,
                  Signature = [], Valid = False\<rparr>,
            Some \<lparr>err = ''Signing method (alg) is unspecified.'', Malformed = False,
                  Unverifiable = True, SignatureInvalid = False, Expired = False,
                  NotValidYet = False\<rparr>,
            [])"
proof -
  have "Parse_method env keyFunc [p0, p1, p2]
          \<lparr>Raw = tokenString, Header = header, Claims = claims, Method = None,
           Signature = [], Valid = False\<rparr> =
        (Some \<lparr>Raw = tokenString, Header = header, Claims = claims, Method = None,
               Signature = [], Valid = False\<rparr>,
         Some \<lparr>err = ''Signing method (alg) is unspecified.'', Malformed = False,
               Unverifiable = True, SignatureInvalid = False, Expired = False,
               NotValidYet = False\<rparr>,
         [])"
    using assms(4)
    by (simp add: Parse_method_def no_error_def split: option.splits json.splits)
  then show ?thesis
    using assms(1-3) by (simp add: Parse_def empty_Token_def)
qed

theorem Parse_alg_unspecified_witness:
  "Split ''eyJ0eXAiOiJKV1QifQ.eyJhIjoxfQ.AA_P'' (CHR ''.'')
     = [''eyJ0eXAiOiJKV1QifQ'', ''eyJhIjoxfQ'', ''AA_P'']
   \<and> decode_map (example_env 2) ''eyJ0eXAiOiJKV1QifQ'' = Inr [(''typ'', JString ''JWT'')]
   \<and> decode_map (example_env 2) ''eyJhIjoxfQ'' = Inr [(''a'', JNumber 1)]
   \<and> (\<forall>name. map_of [(''typ'', JString ''JWT'')] ''alg'' \<noteq> Some (JString name))
   \<and> Parse (example_env 2) ''eyJ0eXAiOiJKV1QifQ.eyJhIjoxfQ.AA_P'' (\<lambda>t. Inr ''k'') =
           (Some \<lparr>Raw = ''eyJ0eXAiOiJKV1QifQ.eyJhIjoxfQ.AA_P'',
                  Header = [(''typ'', JString ''JWT'')], Claims = [(''a'', JNumber 1)],
                  Method = None, Signature = [], Valid = False\<rparr>,
            Some \<lparr>err = ''Signing method (alg) is unspecified.'', Malformed = False,
                  Unverifiable = True, SignatureInvalid = False, Expired = False,
                  NotValidYet = False\<rparr>,
            [])"
proof -
  have h1: "Split ''eyJ0eXAiOiJKV1QifQ.eyJhIjoxfQ.AA_P'' (CHR ''.'')
              = [''eyJ0eXAiOiJKV1QifQ'', ''eyJhIjoxfQ'', ''AA_P'']"
    by (simp add: Split_def)
  have h2: "decode_map (example_env 2) ''eyJ0eXAiOiJKV1QifQ'' = Inr [(''typ'', JString ''JWT'')]"
    by (simp add: decode_map_def example_env_def run_json run_base64)
  have h3: "decode_map (example_env 2) ''eyJhIjoxfQ'' = Inr [(''a'', JNumber 1)]"
    by (simp add: decode_map_def example_env_def run_json run_base64)
  have h4: "\<forall>name. map_of [(''typ'', JString ''JWT'')] ''alg'' \<noteq> Some (JString name)"
    by simp
  show ?thesis
    using h1 h2 h3 h4 Parse_alg_unspecified [OF h1 h2 h3 h4, of "\<lambda>t. Inr ''k''"] by simp
qed

section \<open>Parse: the checks that are gathered\<close>

text \<open>
  When the segments decode, the header names a registered method and the key callback
  returns a key, \<^verbatim>\<open>Parse\<close> comes to the checks of lines 126 to 152.
\<close>

lemma Parse_validates:
  assumes "Split tokenString (CHR ''.'') = [p0, p1, p2]"
    and "decode_map env p0 = Inr header"
    and "decode_map env p1 = Inr claims"
    and "map_of header ''alg'' = Some (JString name)"
    and "GetSigningMethod env name = Some m"
  shows "Parse env tokenString keyFunc =
           Parse_validate env keyFunc [p0, p1, p2] m
             \<lparr>Raw = tokenString, Header = header, Claims = claims, Method = Some m,
              Signature = [], Valid = False\<rparr>"
  using assms by (simp add: Parse_def empty_Token_def Parse_method_def)

lemma check_exp_fields:
  "check_exp env token vErr =
     (if exp_passed env (Claims token)
      then vErr\<lparr>err := ''Token is expired'', Expired := True\<rparr> else vErr)"
  by (simp add: check_exp_def exp_passed_def split: option.splits json.splits)

lemma check_nbf_fields:
  "check_nbf env token vErr =
     (if nbf_ahead env (Claims token)
      then vErr\<lparr>err := ''Token is not valid yet'', NotValidYet := True\<rparr> else vErr)"
  by (simp add: check_nbf_def nbf_ahead_def split: option.splits json.splits)

text \<open>
  The code compares the time, in whole seconds, with \<^verbatim>\<open>int64(exp)\<close>. For an
  \<^verbatim>\<open>exp\<close> that is not negative this is the comparison of the time with
  \<^verbatim>\<open>exp\<close> itself.
\<close>

lemma int64_before_now:
  assumes "0 \<le> e" and "e < of_int now" and "now \<le> 2 ^ 63"
  shows "int64 env e < now"
proof -
  have "\<lfloor>e\<rfloor> < now"
    using assms(2) by (simp add: floor_less_iff)
  moreover have "0 \<le> \<lfloor>e\<rfloor>"
    using assms(1) by simp
  moreover have "e < 9223372036854775808"
  proof -
    have "(of_int now :: rat) \<le> of_int (2 ^ 63)"
      using assms(3) by (simp only: of_int_le_iff)
    then show ?thesis
      using assms(2) by simp
  qed
  ultimately show ?thesis
    using assms(1,3) by (simp add: int64_def)
qed

lemma ceiling_minus_half: "\<lceil>- (1 / 2) :: rat\<rceil> = 0"
  by (rule ceiling_unique) simp_all

text \<open>
  C4, as stated: every token whose \<^verbatim>\<open>exp\<close> is a number in the past, and whose
  signature does not verify, gets both flags. The code compares the time with
  \<^verbatim>\<open>int64(exp)\<close>, which drops the fraction towards zero. With the clock at 0, the
  claim \<^verbatim>\<open>exp\<close> of \<open>- 1 / 2\<close> is in the past, \<^verbatim>\<open>int64(exp)\<close> is 0, which
  is not before the clock, and the token with a signature that does not verify gets the
  SignatureInvalid flag alone.
\<close>

theorem Parse_expired_counterexample:
  "decode_map (example_env 0) ''eyJleHAiOi0wLjV9'' = Inr [(''exp'', JNumber (- (1 / 2)))]
   \<and> (- (1 / 2) :: rat) < of_int (TimeFunc_Unix (example_env 0))
   \<and> int64 (example_env 0) (- (1 / 2)) = 0
   \<and> Verify toy_method ''eyJhbGciOiJ0b3kiLCJ0eXAiOiJKV1QifQ.eyJleHAiOi0wLjV9'' ''AAAA'' ''k''
       = Some ''signature is invalid''
   \<and> map_option (\<lambda>token. (Claims token, Valid token))
       (fst (Parse (example_env 0) ''eyJhbGciOiJ0b3kiLCJ0eXAiOiJKV1QifQ.eyJleHAiOi0wLjV9.AAAA''
               (\<lambda>t. Inr ''k'')))
     = Some ([(''exp'', JNumber (- (1 / 2)))], False)
   \<and> snd (Parse (example_env 0) ''eyJhbGciOiJ0b3kiLCJ0eXAiOiJKV1QifQ.eyJleHAiOi0wLjV9.AAAA''
               (\<lambda>t. Inr ''k''))
     = (Some \<lparr>err = ''signature is invalid'', Malformed = False, Unverifiable = False,
              SignatureInvalid = True, Expired = False, NotValidYet = False\<rparr>,
        [Keyfunc_call, Verify_call])"
  by (simp add: run_Parse run_json run_base64 ceiling_minus_half)

text \<open>
  C4, amended. For a token that comes to the checks, whose \<^verbatim>\<open>exp\<close> claim is a
  number with \<^verbatim>\<open>int64(exp)\<close>, its value without the fraction, before the current
  time, and whose signature the method does not verify, \<^verbatim>\<open>Parse\<close> returns an
  error with both the Expired and the SignatureInvalid flag set: the check of the time
  does not return before the check of the signature, which is called.
\<close>

theorem Parse_expired_and_signature_invalid:
  assumes "Split tokenString (CHR ''.'') = [p0, p1, p2]"
    and "decode_map env p0 = Inr header"
    and "decode_map env p1 = Inr claims"
    and "map_of header ''alg'' = Some (JString name)"
    and "GetSigningMethod env name = Some m"
    and "keyFunc \<lparr>Raw = tokenString, Header = header, Claims = claims, Method = Some m,
                  Signature = [], Valid = False\<rparr> = Inr key"
    and "map_of claims ''exp'' = Some (JNumber e)"
    and "int64 env e < TimeFunc_Unix env"
    and "Verify m (Join [p0, p1] ''.'') p2 key = Some msg"
  shows "\<exists>token vErr.
           Parse env tokenString keyFunc = (Some token, Some vErr, [Keyfunc_call, Verify_call])
           \<and> Expired vErr \<and> SignatureInvalid vErr \<and> Valid token = False"
  using assms(6-9) unfolding Parse_validates [OF assms(1-5)]
  by (simp add: Parse_validate_def check_signature_def check_exp_fields check_nbf_fields
      exp_passed_def ValidationError_Valid_def no_error_def)

theorem Parse_expired_and_signature_invalid_witness:
  "Split ''eyJhbGciOiJ0b3kiLCJ0eXAiOiJKV1QifQ.eyJleHAiOjF9.AAAA'' (CHR ''.'')
     = [''eyJhbGciOiJ0b3kiLCJ0eXAiOiJKV1QifQ'', ''eyJleHAiOjF9'', ''AAAA'']
   \<and> decode_map (example_env 2) ''eyJhbGciOiJ0b3kiLCJ0eXAiOiJKV1QifQ''
       = Inr [(''alg'', JString ''toy''), (''typ'', JString ''JWT'')]
   \<and> decode_map (example_env 2) ''eyJleHAiOjF9'' = Inr [(''exp'', JNumber 1)]
   \<and> map_of [(''alg'', JString ''toy''), (''typ'', JString ''JWT'')] ''alg''
       = Some (JString ''toy'')
   \<and> GetSigningMethod (example_env 2) ''toy'' = Some toy_method
   \<and> map_of [(''exp'', JNumber 1)] ''exp'' = Some (JNumber 1)
   \<and> int64 (example_env 2) 1 < TimeFunc_Unix (example_env 2)
   \<and> Verify toy_method
         (Join [''eyJhbGciOiJ0b3kiLCJ0eXAiOiJKV1QifQ'', ''eyJleHAiOjF9''] ''.'') ''AAAA'' ''k''
       = Some ''signature is invalid''
   \<and> (\<exists>token vErr.
         Parse (example_env 2) ''eyJhbGciOiJ0b3kiLCJ0eXAiOiJKV1QifQ.eyJleHAiOjF9.AAAA''
           (\<lambda>t. Inr ''k'') = (Some token, Some vErr, [Keyfunc_call, Verify_call])
         \<and> Expired vErr \<and> SignatureInvalid vErr \<and> Valid token = False)"
proof -
  have h1: "Split ''eyJhbGciOiJ0b3kiLCJ0eXAiOiJKV1QifQ.eyJleHAiOjF9.AAAA'' (CHR ''.'')
     = [''eyJhbGciOiJ0b3kiLCJ0eXAiOiJKV1QifQ'', ''eyJleHAiOjF9'', ''AAAA'']"
    by (simp add: Split_def)
  have h2: "decode_map (example_env 2) ''eyJhbGciOiJ0b3kiLCJ0eXAiOiJKV1QifQ''
       = Inr [(''alg'', JString ''toy''), (''typ'', JString ''JWT'')]"
    by (simp add: decode_map_def example_env_def run_json run_base64)
  have h3: "decode_map (example_env 2) ''eyJleHAiOjF9'' = Inr [(''exp'', JNumber 1)]"
    by (simp add: decode_map_def example_env_def run_json run_base64)
  have h4: "map_of [(''alg'', JString ''toy''), (''typ'', JString ''JWT'')] ''alg''
       = Some (JString ''toy'')"
    by simp
  have h5: "GetSigningMethod (example_env 2) ''toy'' = Some toy_method"
    by (simp add: example_env_def)
  have h6: "(\<lambda>t. Inr ''k'')
              \<lparr>Raw = ''eyJhbGciOiJ0b3kiLCJ0eXAiOiJKV1QifQ.eyJleHAiOjF9.AAAA'',
               Header = [(''alg'', JString ''toy''), (''typ'', JString ''JWT'')],
               Claims = [(''exp'', JNumber 1)], Method = Some toy_method,
               Signature = [], Valid = False\<rparr> = (Inr ''k'' :: string + bytes)"
    by simp
  have h7: "map_of [(''exp'', JNumber 1)] ''exp'' = Some (JNumber 1)"
    by simp
  have h8: "int64 (example_env 2) 1 < TimeFunc_Unix (example_env 2)"
    by (simp add: int64_def example_env_def)
  have h9: "Verify toy_method
         (Join [''eyJhbGciOiJ0b3kiLCJ0eXAiOiJKV1QifQ'', ''eyJleHAiOjF9''] ''.'') ''AAAA'' ''k''
       = Some ''signature is invalid''"
    by (simp add: toy_method_def toy_digest_def run_base64)
  show ?thesis
    using h1 h2 h3 h4 h5 h7 h8 h9
      Parse_expired_and_signature_invalid [OF h1 h2 h3 h4 h5 h6 h7 h8 h9]
    by simp
qed

text \<open>\<^verbatim>\<open>Error()\<close> returns the message field unless it is empty.\<close>

lemma Error_is_message:
  assumes "err e \<noteq> []"
  shows "ValidationError_Error e = err e"
  using assms by (simp add: ValidationError_Error_def)

text \<open>
  C10. For a token that comes to the checks and fails at least one of them, the message
  of the error returned is that of the last check that failed (the signature, else
  \<^verbatim>\<open>nbf\<close>, else \<^verbatim>\<open>exp\<close>): each later check overwrites the message. The
  flag of every check that failed is set, and no other.
\<close>

theorem Parse_message_of_last_failure:
  assumes "Split tokenString (CHR ''.'') = [p0, p1, p2]"
    and "decode_map env p0 = Inr header"
    and "decode_map env p1 = Inr claims"
    and "map_of header ''alg'' = Some (JString name)"
    and "GetSigningMethod env name = Some m"
    and "keyFunc \<lparr>Raw = tokenString, Header = header, Claims = claims, Method = Some m,
                  Signature = [], Valid = False\<rparr> = Inr key"
    and "exp_passed env claims \<or> nbf_ahead env claims
         \<or> Verify m (Join [p0, p1] ''.'') p2 key \<noteq> None"
  shows "Parse env tokenString keyFunc =
           (Some \<lparr>Raw = tokenString, Header = header, Claims = claims, Method = Some m,
                  Signature = [], Valid = False\<rparr>,
            Some \<lparr>err = (case Verify m (Join [p0, p1] ''.'') p2 key of
                           Some msg \<Rightarrow> msg
                         | None \<Rightarrow> if nbf_ahead env claims then ''Token is not valid yet''
                                   else ''Token is expired''),
                  Malformed = False, Unverifiable = False,
                  SignatureInvalid = (Verify m (Join [p0, p1] ''.'') p2 key \<noteq> None),
                  Expired = exp_passed env claims,
                  NotValidYet = nbf_ahead env claims\<rparr>,
            [Keyfunc_call, Verify_call])"
  using assms(6-7) unfolding Parse_validates [OF assms(1-5)]
  by (auto simp: Parse_validate_def check_signature_def check_exp_fields check_nbf_fields
      ValidationError_Valid_def no_error_def split: option.splits)

theorem Parse_message_of_last_failure_witness:
  "Split ''eyJhbGciOiJ0b3kiLCJ0eXAiOiJKV1QifQ.eyJleHAiOjEsIm5iZiI6MTB9.AAAA'' (CHR ''.'')
     = [''eyJhbGciOiJ0b3kiLCJ0eXAiOiJKV1QifQ'', ''eyJleHAiOjEsIm5iZiI6MTB9'', ''AAAA'']
   \<and> decode_map (example_env 2) ''eyJhbGciOiJ0b3kiLCJ0eXAiOiJKV1QifQ''
       = Inr [(''alg'', JString ''toy''), (''typ'', JString ''JWT'')]
   \<and> decode_map (example_env 2) ''eyJleHAiOjEsIm5iZiI6MTB9''
       = Inr [(''exp'', JNumber 1), (''nbf'', JNumber 10)]
   \<and> GetSigningMethod (example_env 2) ''toy'' = Some toy_method
   \<and> exp_passed (example_env 2) [(''exp'', JNumber 1), (''nbf'', JNumber 10)]
   \<and> nbf_ahead (example_env 2) [(''exp'', JNumber 1), (''nbf'', JNumber 10)]
   \<and> Verify toy_method
         (Join [''eyJhbGciOiJ0b3kiLCJ0eXAiOiJKV1QifQ'', ''eyJleHAiOjEsIm5iZiI6MTB9''] ''.'')
         ''AAAA'' ''k''
       = Some ''signature is invalid''
   \<and> Parse (example_env 2) ''eyJhbGciOiJ0b3kiLCJ0eXAiOiJKV1QifQ.eyJleHAiOjEsIm5iZiI6MTB9.AAAA''
         (\<lambda>t. Inr ''k'') =
       (Some \<lparr>Raw = ''eyJhbGciOiJ0b3kiLCJ0eXAiOiJKV1QifQ.eyJleHAiOjEsIm5iZiI6MTB9.AAAA'',
              Header = [(''alg'', JString ''toy''), (''typ'', JString ''JWT'')],
              Claims = [(''exp'', JNumber 1), (''nbf'', JNumber 10)],
              Method = Some toy_method, Signature = [], Valid = False\<rparr>,
        Some \<lparr>err = ''signature is invalid'', Malformed = False, Unverifiable = False,
              SignatureInvalid = True, Expired = True, NotValidYet = True\<rparr>,
        [Keyfunc_call, Verify_call])"
proof -
  have h1: "Split ''eyJhbGciOiJ0b3kiLCJ0eXAiOiJKV1QifQ.eyJleHAiOjEsIm5iZiI6MTB9.AAAA'' (CHR ''.'')
     = [''eyJhbGciOiJ0b3kiLCJ0eXAiOiJKV1QifQ'', ''eyJleHAiOjEsIm5iZiI6MTB9'', ''AAAA'']"
    by (simp add: Split_def)
  have h2: "decode_map (example_env 2) ''eyJhbGciOiJ0b3kiLCJ0eXAiOiJKV1QifQ''
       = Inr [(''alg'', JString ''toy''), (''typ'', JString ''JWT'')]"
    by (simp add: decode_map_def example_env_def run_json run_base64)
  have h3: "decode_map (example_env 2) ''eyJleHAiOjEsIm5iZiI6MTB9''
       = Inr [(''exp'', JNumber 1), (''nbf'', JNumber 10)]"
    by (simp add: decode_map_def example_env_def run_json run_base64)
  have h4: "map_of [(''alg'', JString ''toy''), (''typ'', JString ''JWT'')] ''alg''
       = Some (JString ''toy'')"
    by simp
  have h5: "GetSigningMethod (example_env 2) ''toy'' = Some toy_method"
    by (simp add: example_env_def)
  have h6: "(\<lambda>t. Inr ''k'')
              \<lparr>Raw = ''eyJhbGciOiJ0b3kiLCJ0eXAiOiJKV1QifQ.eyJleHAiOjEsIm5iZiI6MTB9.AAAA'',
               Header = [(''alg'', JString ''toy''), (''typ'', JString ''JWT'')],
               Claims = [(''exp'', JNumber 1), (''nbf'', JNumber 10)],
               Method = Some toy_method,
               Signature = [], Valid = False\<rparr> = (Inr ''k'' :: string + bytes)"
    by simp
  have e: "exp_passed (example_env 2) [(''exp'', JNumber 1), (''nbf'', JNumber 10)]"
    by (simp add: exp_passed_def int64_def example_env_def)
  have n: "nbf_ahead (example_env 2) [(''exp'', JNumber 1), (''nbf'', JNumber 10)]"
    by (simp add: nbf_ahead_def int64_def example_env_def)
  have v: "Verify toy_method
         (Join [''eyJhbGciOiJ0b3kiLCJ0eXAiOiJKV1QifQ'', ''eyJleHAiOjEsIm5iZiI6MTB9''] ''.'')
         ''AAAA'' ''k''
       = Some ''signature is invalid''"
    by (simp add: toy_method_def toy_digest_def run_base64)
  have h7: "exp_passed (example_env 2) [(''exp'', JNumber 1), (''nbf'', JNumber 10)]
         \<or> nbf_ahead (example_env 2) [(''exp'', JNumber 1), (''nbf'', JNumber 10)]
         \<or> Verify toy_method
         (Join [''eyJhbGciOiJ0b3kiLCJ0eXAiOiJKV1QifQ'', ''eyJleHAiOjEsIm5iZiI6MTB9''] ''.'')
         ''AAAA'' ''k'' \<noteq> None"
    using e by simp
  show ?thesis
    using h1 h2 h3 h5 e n v Parse_message_of_last_failure [OF h1 h2 h3 h4 h5 h6 h7]
    by simp
qed

section \<open>The Signature field\<close>

text \<open>
  No line of \<^verbatim>\<open>Parse\<close> assigns \<^verbatim>\<open>token.Signature\<close>: whatever the input, the
  token returned has the field empty.
\<close>

lemma Parse_validate_Signature:
  assumes "Parse_validate env keyFunc parts m token = (Some token', e, calls)"
  shows "Signature token' = Signature token"
  using assms
  by (auto simp: Parse_validate_def Let_def split: sum.splits if_splits)

lemma Parse_method_Signature:
  assumes "Parse_method env keyFunc parts token = (Some token', e, calls)"
  shows "Signature token' = Signature token"
  using assms Parse_validate_Signature
  by (fastforce simp: Parse_method_def split: option.splits json.splits)

lemma Parse_Signature_empty:
  assumes "Parse env tokenString keyFunc = (Some token, e, calls)"
  shows "Signature token = []"
  using assms Parse_method_Signature
  by (fastforce simp: Parse_def Let_def empty_Token_def split: if_splits sum.splits)

text \<open>
  C3. The claim is that, once \<^verbatim>\<open>Parse\<close> is past the decoding of the header and
  the claims, the token returned holds the decoded signature segment in
  \<^verbatim>\<open>Signature\<close>. On the token below, which \<^verbatim>\<open>Parse\<close> accepts as valid, the
  signature segment \<^verbatim>\<open>ABEF\<close> decodes to three bytes, and the field is empty.
\<close>

theorem Parse_leaves_Signature_empty:
  "map_option (\<lambda>token. (Valid token, Signature token))
     (fst (Parse (example_env 2) ''eyJhbGciOiJ0b3kiLCJ0eXAiOiJKV1QifQ.eyJleHAiOjEwfQ.ABEF''
             (\<lambda>t. Inr ''k'')))
     = Some (True, [])
   \<and> snd (Parse (example_env 2) ''eyJhbGciOiJ0b3kiLCJ0eXAiOiJKV1QifQ.eyJleHAiOjEwfQ.ABEF''
             (\<lambda>t. Inr ''k''))
     = (None, [Keyfunc_call, Verify_call])
   \<and> DecodeSegment ''ABEF'' = Inr [CHR 0x00, CHR 0x11, CHR 0x05]"
  by (simp add: run_Parse run_json run_base64)

section \<open>The base64 codec\<close>

subsection \<open>The alphabet\<close>

lemma index_of_nth:
  "distinct xs \<Longrightarrow> i < length xs \<Longrightarrow> index_of (xs ! i) xs = Some i"
proof (induction xs arbitrary: i)
  case Nil
  then show ?case by simp
next
  case (Cons x xs)
  show ?case
  proof (cases i)
    case 0
    then show ?thesis by simp
  next
    case (Suc j)
    with Cons.prems have "xs ! j \<noteq> x" "j < length xs" "distinct xs"
      by auto
    with Cons.IH [of j] Suc show ?thesis by simp
  qed
qed

lemma index_of_Some_mem: "index_of c xs = Some i \<Longrightarrow> c \<in> set xs"
  by (induction xs arbitrary: i) (auto split: if_splits)

lemma distinct_encodeURL: "distinct encodeURL"
  by (simp add: encodeURL_def)

lemma decodeMap_encode6: "decodeMap (encode6 v) = Some (v mod 64)"
  unfolding decodeMap_def encode6_def
  by (rule index_of_nth [OF distinct_encodeURL]) (simp add: encodeURL_def)

lemma decodeMap_Some_digit:
  assumes "decodeMap c = Some v"
  shows "c \<noteq> padChar" and "\<not> is_newline c" and "c \<noteq> CHR ''.''"
proof -
  have "c \<in> set encodeURL"
    using assms index_of_Some_mem by (simp add: decodeMap_def)
  then show "c \<noteq> padChar" and "\<not> is_newline c" and "c \<noteq> CHR ''.''"
    by (auto simp: encodeURL_def padChar_def is_newline_def)
qed

lemmas encode6_digit = decodeMap_Some_digit [OF decodeMap_encode6]

lemma decodeMap_padChar: "decodeMap padChar = None"
  by (simp add: decodeMap_def padChar_def encodeURL_def)

lemma padChar_not_newline: "\<not> is_newline padChar"
  by (simp add: padChar_def is_newline_def)

subsection \<open>Three bytes and four digits\<close>

lemma sextets_recompose:
  fixes n :: nat
  assumes "n < 16777216"
  shows "(n div 262144 mod 64) * 262144 + (n div 4096 mod 64) * 4096
           + (n div 64 mod 64) * 64 + n mod 64 = n"
proof -
  have e1: "n = n div 64 * 64 + n mod 64"
    by simp
  have e2: "n div 64 = n div 4096 * 64 + n div 64 mod 64"
    using div_mult_mod_eq [of "n div 64" 64] by (simp add: div_mult2_eq [symmetric])
  have e3: "n div 4096 = n div 262144 * 64 + n div 4096 mod 64"
    using div_mult_mod_eq [of "n div 4096" 64] by (simp add: div_mult2_eq [symmetric])
  have "n div 262144 < 64"
    using assms by (simp add: less_mult_imp_div_less)
  then have e4: "n div 262144 mod 64 = n div 262144"
    by simp
  show ?thesis
    using e1 e2 e3 unfolding e4 by linarith
qed

lemma bytes_of_val:
  fixes a b c :: nat
  assumes "b < 256" and "c < 256"
  shows "(a * 65536 + b * 256 + c) div 65536 = a"
    and "(a * 65536 + b * 256 + c) div 256 mod 256 = b"
    and "(a * 65536 + b * 256 + c) mod 256 = c"
proof -
  show "(a * 65536 + b * 256 + c) div 65536 = a"
    using assms by (intro div_nat_eqI) simp_all
  have "(a * 65536 + b * 256 + c) div 256 = a * 256 + b"
    using assms by (intro div_nat_eqI) simp_all
  then show "(a * 65536 + b * 256 + c) div 256 mod 256 = b"
    using assms by simp
  have "a * 65536 + b * 256 + c = (a * 256 + b) * 256 + c"
    by simp
  then show "(a * 65536 + b * 256 + c) mod 256 = c"
    using assms by (metis mod_mult_self3 mod_less)
qed

lemma of_char_less_256: "(of_char c :: nat) < 256"
  by (metis of_char_mod_256 mod_less_divisor zero_less_numeral)

lemma char_of_of_char_mod: "char_of (n :: nat) = c \<longleftrightarrow> n mod 256 = of_char c"
  by (simp add: char_of_eq_iff take_bit_eq_mod)

lemma quantum_bytes_4_digits:
  assumes "s = d0 * 262144 + d1 * 4096 + d2 * 64 + d3"
  shows "quantum_bytes [d0, d1, d2, d3]
           = [char_of (s div 65536), char_of (s div 256), char_of s]"
  using assms by (simp add: quantum_bytes_def Let_def)

lemma quantum_bytes_3_digits:
  assumes "s = d0 * 262144 + d1 * 4096 + d2 * 64"
  shows "quantum_bytes [d0, d1, d2] = [char_of (s div 65536), char_of (s div 256)]"
  using assms by (simp add: quantum_bytes_def Let_def)

lemma quantum_bytes_2_digits:
  assumes "s = d0 * 262144 + d1 * 4096"
  shows "quantum_bytes [d0, d1] = [char_of (s div 65536)]"
  using assms by (simp add: quantum_bytes_def Let_def)

lemma quantum_of_3_bytes:
  fixes a b c :: char
  defines "val \<equiv> of_char a * 65536 + of_char b * 256 + (of_char c :: nat)"
  shows "quantum_bytes [val div 262144 mod 64, val div 4096 mod 64, val div 64 mod 64,
                        val mod 64] = [a, b, c]"
proof -
  have la: "(of_char a :: nat) < 256" and lb: "(of_char b :: nat) < 256"
    and lc: "(of_char c :: nat) < 256"
    by (rule of_char_less_256)+
  have "val < 16777216"
    using la lb lc unfolding val_def by linarith
  note v = sextets_recompose [OF this]
  have b: "val div 65536 mod 256 = of_char a" "val div 256 mod 256 = of_char b"
    "val mod 256 = of_char c"
    unfolding val_def using bytes_of_val [OF lb lc, of "of_char a"] la by simp_all
  have "quantum_bytes [val div 262144 mod 64, val div 4096 mod 64, val div 64 mod 64,
                       val mod 64]
          = [char_of (val div 65536), char_of (val div 256), char_of val]"
    by (rule quantum_bytes_4_digits) (rule v [symmetric])
  also have "\<dots> = [a, b, c]"
    using b by (simp add: char_of_of_char_mod)
  finally show ?thesis .
qed

lemma quantum_of_2_bytes:
  fixes a b :: char
  defines "val \<equiv> of_char a * 65536 + of_char b * 256 :: nat"
  shows "quantum_bytes [val div 262144 mod 64, val div 4096 mod 64, val div 64 mod 64]
           = [a, b]"
proof -
  have la: "(of_char a :: nat) < 256" and lb: "(of_char b :: nat) < 256"
    by (rule of_char_less_256)+
  have "val < 16777216"
    using la lb unfolding val_def by linarith
  note v = sextets_recompose [OF this]
  have "val = (of_char a * 1024 + of_char b * 4) * 64"
    by (simp add: val_def)
  then have z: "val mod 64 = 0"
    by simp
  have s: "val = (val div 262144 mod 64) * 262144 + (val div 4096 mod 64) * 4096
             + (val div 64 mod 64) * 64"
    using v z by linarith
  have b: "val div 65536 mod 256 = of_char a" "val div 256 mod 256 = of_char b"
    unfolding val_def using bytes_of_val [OF lb, of 0 "of_char a"] la by simp_all
  have "quantum_bytes [val div 262144 mod 64, val div 4096 mod 64, val div 64 mod 64]
          = [char_of (val div 65536), char_of (val div 256)]"
    by (rule quantum_bytes_3_digits) (rule s)
  also have "\<dots> = [a, b]"
    using b by (simp add: char_of_of_char_mod)
  finally show ?thesis .
qed

lemma quantum_of_1_byte:
  fixes a :: char
  defines "val \<equiv> of_char a * 65536 :: nat"
  shows "quantum_bytes [val div 262144 mod 64, val div 4096 mod 64] = [a]"
proof -
  have la: "(of_char a :: nat) < 256"
    by (rule of_char_less_256)
  have "val < 16777216"
    using la unfolding val_def by linarith
  note v = sextets_recompose [OF this]
  have "val = (of_char a * 1024) * 64"
    by (simp add: val_def)
  then have z: "val mod 64 = 0"
    by simp
  have "val div 64 = (of_char a * 16) * 64"
    by (simp add: val_def)
  then have z': "val div 64 mod 64 = 0"
    by simp
  have s: "val = (val div 262144 mod 64) * 262144 + (val div 4096 mod 64) * 4096"
    using v z z' by linarith
  have b: "val div 65536 mod 256 = of_char a"
    unfolding val_def using la by simp
  have "quantum_bytes [val div 262144 mod 64, val div 4096 mod 64]
          = [char_of (val div 65536)]"
    by (rule quantum_bytes_2_digits) (rule s)
  also have "\<dots> = [a]"
    using b by (simp add: char_of_of_char_mod)
  finally show ?thesis .
qed

subsection \<open>Decoding what was encoded\<close>

lemma decode_from_digit:
  assumes "decodeMap c = Some v" and "length dbuf \<noteq> 3"
  shows "decode_from si dbuf (c # src) = decode_from (Suc si) (dbuf @ [v]) src"
  using assms by simp

lemma decode_from_last_digit:
  assumes "decodeMap c = Some v" and "length dbuf = 3"
  shows "decode_from si dbuf (c # src) =
           (case decode_from (Suc si) [] src of
              Inl e \<Rightarrow> Inl e
            | Inr out \<Rightarrow> Inr (quantum_bytes (dbuf @ [v]) @ out))"
  using assms by simp

lemma decode_from_pad_after_2:
  assumes "length dbuf = 2"
  shows "decode_from si dbuf [padChar, padChar] = Inr (quantum_bytes dbuf)"
  using assms by (simp add: decodeMap_padChar padChar_not_newline decode_finish_def)

lemma decode_from_pad_after_3:
  assumes "length dbuf = 3"
  shows "decode_from si dbuf [padChar] = Inr (quantum_bytes dbuf)"
  using assms by (simp add: decodeMap_padChar padChar_not_newline decode_finish_def)

lemma decode_from_4_digits:
  "decode_from si [] (encode6 w # encode6 x # encode6 y # encode6 z # src) =
     (case decode_from (Suc (Suc (Suc (Suc si)))) [] src of
        Inl e \<Rightarrow> Inl e
      | Inr out \<Rightarrow> Inr (quantum_bytes [w mod 64, x mod 64, y mod 64, z mod 64] @ out))"
  by (simp add: decode_from_digit [OF decodeMap_encode6]
      decode_from_last_digit [OF decodeMap_encode6] del: decode_from.simps
      split: sum.split)

lemma decode_from_3_digits_pad:
  "decode_from si [] [encode6 w, encode6 x, encode6 y, padChar] =
     Inr (quantum_bytes [w mod 64, x mod 64, y mod 64])"
  by (simp add: decode_from_digit [OF decodeMap_encode6] decode_from_pad_after_3
      del: decode_from.simps)

lemma decode_from_2_digits_pad:
  "decode_from si [] [encode6 w, encode6 x, padChar, padChar] =
     Inr (quantum_bytes [w mod 64, x mod 64])"
  by (simp add: decode_from_digit [OF decodeMap_encode6] decode_from_pad_after_2
      del: decode_from.simps)

lemma decode_from_EncodeToString: "decode_from si [] (EncodeToString src) = Inr src"
proof (induction src arbitrary: si rule: EncodeToString.induct)
  case 1
  show ?case by simp
next
  case (2 a)
  show ?case
    using quantum_of_1_byte [of a]
    by (simp add: decode_from_2_digits_pad Let_def del: decode_from.simps)
next
  case (3 a b)
  show ?case
    using quantum_of_2_bytes [of a b]
    by (simp add: decode_from_3_digits_pad Let_def del: decode_from.simps)
next
  case (4 a b c rest)
  show ?case
    using quantum_of_3_bytes [of a b c] "4.IH" [OF refl, of "Suc (Suc (Suc (Suc si)))"]
    by (simp add: decode_from_4_digits Let_def del: decode_from.simps)
qed

lemma DecodeString_EncodeToString: "DecodeString (EncodeToString src) = Inr src"
  by (simp add: DecodeString_def decode_from_EncodeToString)

subsection \<open>Segments: padding stripped and put back\<close>

lemma dropWhile_append_stop:
  assumes "ys \<noteq> []" and "\<not> P (hd ys)"
  shows "dropWhile P (xs @ ys) = dropWhile P xs @ ys"
  using assms by (induction xs) (auto simp: neq_Nil_conv)

lemma TrimRight_append:
  assumes "x \<noteq> []" and "last x \<notin> set cutset"
  shows "TrimRight (x @ y) cutset = x @ TrimRight y cutset"
proof -
  have "dropWhile (\<lambda>c. c \<in> set cutset) (rev y @ rev x)
          = dropWhile (\<lambda>c. c \<in> set cutset) (rev y) @ rev x"
    using assms by (intro dropWhile_append_stop) (simp_all add: hd_rev)
  then show ?thesis
    by (simp add: TrimRight_def)
qed

lemma TrimRight_4:
  assumes "z \<notin> set cutset"
  shows "TrimRight (w # x # y # z # s) cutset = w # x # y # z # TrimRight s cutset"
  using TrimRight_append [of "[w, x, y, z]" cutset s] assms by simp

lemma set_TrimRight: "set (TrimRight s cutset) \<subseteq> set s"
  unfolding TrimRight_def using set_dropWhileD by fastforce

lemma EncodeSegment_Nil: "EncodeSegment [] = []"
  by (simp add: EncodeSegment_def TrimRight_def)

lemma EncodeSegment_1:
  "EncodeSegment [a] =
     (let val = of_char a * 65536 in [encode6 (val div 262144), encode6 (val div 4096)])"
  using encode6_digit(1)
  by (simp add: EncodeSegment_def TrimRight_def Let_def padChar_def)

lemma EncodeSegment_2:
  "EncodeSegment [a, b] =
     (let val = of_char a * 65536 + of_char b * 256
      in [encode6 (val div 262144), encode6 (val div 4096), encode6 (val div 64)])"
  using encode6_digit(1)
  by (simp add: EncodeSegment_def TrimRight_def Let_def padChar_def)

lemma EncodeSegment_3:
  "EncodeSegment (a # b # c # rest) =
     (let val = of_char a * 65536 + of_char b * 256 + of_char c
      in [encode6 (val div 262144), encode6 (val div 4096), encode6 (val div 64), encode6 val]
         @ EncodeSegment rest)"
  using encode6_digit(1)
  by (simp add: EncodeSegment_def Let_def TrimRight_4 padChar_def)

lemma DecodeSegment_pad_4:
  "DecodeSegment_pad (w # x # y # z # seg) = w # x # y # z # DecodeSegment_pad seg"
  by (simp add: DecodeSegment_pad_def)

text \<open>
  Where the length of the bytes is not 2 modulo 3, the encoded segment has a length of 0
  or 2 modulo 4, the padding that \<^verbatim>\<open>DecodeSegment\<close> restores is the padding that
  \<^verbatim>\<open>EncodeSegment\<close> stripped, and the bytes come back.
\<close>

lemma DecodeSegment_pad_EncodeSegment:
  assumes "length src mod 3 \<noteq> 2"
  shows "DecodeSegment_pad (EncodeSegment src) = EncodeToString src"
  using assms
proof (induction src rule: EncodeToString.induct)
  case 1
  show ?case by (simp add: EncodeSegment_Nil DecodeSegment_pad_def)
next
  case (2 a)
  show ?case by (simp add: EncodeSegment_1 DecodeSegment_pad_def Let_def padChar_def)
next
  case (3 a b)
  then show ?case by simp
next
  case (4 a b c rest)
  then show ?case
    by (simp add: EncodeSegment_3 DecodeSegment_pad_4 Let_def)
qed

lemma DecodeSegment_EncodeSegment:
  assumes "length src mod 3 \<noteq> 2"
  shows "DecodeSegment (EncodeSegment src) = Inr src"
  by (simp add: DecodeSegment_def DecodeSegment_pad_EncodeSegment [OF assms]
      DecodeString_EncodeToString)

lemma length_EncodeSegment:
  "length (EncodeSegment src) mod 4 = (if length src mod 3 = 0 then 0 else length src mod 3 + 1)"
proof (induction src rule: EncodeToString.induct)
  case 1
  show ?case by (simp add: EncodeSegment_Nil)
next
  case (2 a)
  show ?case by (simp add: EncodeSegment_1 Let_def)
next
  case (3 a b)
  show ?case by (simp add: EncodeSegment_2 Let_def)
next
  case (4 a b c rest)
  then show ?case
    by (simp add: EncodeSegment_3 Let_def)
qed

lemma dot_not_in_EncodeToString: "CHR ''.'' \<notin> set (EncodeToString src)"
  by (induction src rule: EncodeToString.induct)
    (simp_all add: Let_def padChar_def encode6_digit(3) encode6_digit(3) [THEN not_sym])

lemma dot_not_in_EncodeSegment: "CHR ''.'' \<notin> set (EncodeSegment src)"
  using dot_not_in_EncodeToString set_TrimRight unfolding EncodeSegment_def by blast

subsection \<open>Lengths that do not decode\<close>

lemma dropWhile_none:
  assumes "\<forall>c\<in>set xs. \<not> P c"
  shows "dropWhile P xs = xs"
  using assms by (cases xs) simp_all

lemma decode_finish_Inr:
  assumes "decode_finish si dbuf src = Inr out" and "\<forall>c\<in>set src. \<not> is_newline c"
  shows "src = []"
  using assms dropWhile_none [OF assms(2)]
  by (simp add: decode_finish_def Let_def split: if_splits)

text \<open>
  In an input without line ends that decodes, the digits and padding characters come in
  whole groups of four.
\<close>

lemma decode_from_Inr_length:
  assumes "decode_from si dbuf src = Inr out"
    and "length dbuf \<le> 3"
    and "\<forall>c\<in>set src. \<not> is_newline c"
  shows "(length dbuf + length src) mod 4 = 0"
  using assms
proof (induction src arbitrary: si dbuf out)
  case Nil
  then show ?case by (simp split: if_splits)
next
  case (Cons c src)
  have nl: "\<forall>c\<in>set src. \<not> is_newline c" and c: "\<not> is_newline c"
    using Cons.prems(3) by simp_all
  show ?case
  proof (cases "decodeMap c")
    case (Some v)
    show ?thesis
    proof (cases "length dbuf = 3")
      case True
      with Some Cons.prems(1) obtain out' where "decode_from (Suc si) [] src = Inr out'"
        by (auto split: sum.splits)
      from Cons.IH [OF this _ nl] True show ?thesis
        by (simp add: mod_Suc)
    next
      case False
      with Some Cons.prems(1) have "decode_from (Suc si) (dbuf @ [v]) src = Inr out"
        by simp
      from Cons.IH [OF this _ nl] False Cons.prems(2) show ?thesis
        by simp
    qed
  next
    case None
    show ?thesis
    proof (cases "length dbuf = 2")
      case True
      with None c Cons.prems(1) dropWhile_none [OF nl]
      have "src \<noteq> []" and "decode_finish (Suc (Suc si) + length (takeWhile is_newline src)) dbuf (tl src) = Inr out"
        by (auto simp: Let_def split: if_splits)
      moreover have "\<forall>c\<in>set (tl src). \<not> is_newline c"
        using nl by (cases src) simp_all
      ultimately have "tl src = []"
        using decode_finish_Inr by blast
      with \<open>src \<noteq> []\<close> have "length src = 1"
        by (cases src) simp_all
      with True show ?thesis by simp
    next
      case False
      with None c Cons.prems(1) have "length dbuf \<ge> 2" and "decode_finish (Suc si) dbuf src = Inr out"
        by (auto simp: Let_def split: if_splits)
      with decode_finish_Inr [OF _ nl] False Cons.prems(2) have "src = []" "length dbuf = 3"
        by auto
      then show ?thesis by simp
    qed
  qed
qed

text \<open>
  The decoder rejects every input that ends in three padding characters, whatever comes
  before them.
\<close>

lemma decode_finish_garbage:
  assumes "ys \<noteq> []" and "\<not> is_newline (hd ys)"
  shows "\<exists>e. decode_finish si dbuf (xs @ ys) = Inl e"
proof -
  have "dropWhile is_newline (xs @ ys) = dropWhile is_newline xs @ ys"
    using assms by (rule dropWhile_append_stop)
  with assms(1) show ?thesis
    by (simp add: decode_finish_def Let_def)
qed

lemma decode_from_3_pads:
  "\<exists>e. decode_from si dbuf (src @ [padChar, padChar, padChar]) = Inl e"
proof (induction src arbitrary: si dbuf)
  case Nil
  show ?case
    using decode_finish_garbage [of "[padChar]" _ _ "[]"]
      decode_finish_garbage [of "[padChar, padChar]" _ _ "[]"]
    by (simp add: decodeMap_padChar padChar_not_newline)
next
  case (Cons c src)
  let ?tail = "src @ [padChar, padChar, padChar]"
  have rest: "dropWhile is_newline ?tail = dropWhile is_newline src @ [padChar, padChar, padChar]"
    by (rule dropWhile_append_stop) (simp_all add: padChar_not_newline)
  have after: "\<exists>e. decode_finish k dbuf (tl (dropWhile is_newline ?tail)) = Inl e" for k
  proof (cases "dropWhile is_newline src")
    case Nil
    with rest show ?thesis
      using decode_finish_garbage [of "[padChar, padChar]" k dbuf "[]"]
      by (simp add: padChar_not_newline)
  next
    case (Cons x xs)
    with rest show ?thesis
      using decode_finish_garbage [of "[padChar, padChar, padChar]" k dbuf xs]
      by (simp add: padChar_not_newline)
  qed
  have fin: "\<exists>e. decode_finish k dbuf ?tail = Inl e" for k
    using decode_finish_garbage [of "[padChar, padChar, padChar]" k dbuf src]
    by (simp add: padChar_not_newline)
  show ?case
  proof (cases "decodeMap c")
    case (Some v)
    then show ?thesis
      using Cons.IH [of "Suc si" "[]"] Cons.IH [of "Suc si" "dbuf @ [v]"]
      by auto
  next
    case None
    then show ?thesis
      using Cons.IH [of "Suc si" dbuf] after fin rest
      by (auto simp: Let_def)
  qed
qed

lemma DecodeSegment_length_3_fails:
  assumes "length seg mod 4 = 3"
  shows "\<exists>e. DecodeSegment seg = Inl e"
  using assms decode_from_3_pads [of 0 "[]" seg]
  by (simp add: DecodeSegment_def DecodeSegment_pad_def DecodeString_def padChar_def)

section \<open>DecodeSegment\<close>

text \<open>
  C2. The claim is that \<^verbatim>\<open>DecodeSegment\<close> pads its input to a multiple of four
  characters, with two \<^verbatim>\<open>=\<close> for a length of 2 modulo 4 and one \<^verbatim>\<open>=\<close> for a
  length of 3 modulo 4, so that every stripped segment decodes. For a length of 3 modulo 4
  the code appends three: the two bytes \<^verbatim>\<open>ab\<close> encode to \<^verbatim>\<open>YWI\<close>, which
  \<^verbatim>\<open>DecodeSegment\<close> pads to \<^verbatim>\<open>YWI===\<close>, six characters, and fails to
  decode, where \<^verbatim>\<open>YWI=\<close> decodes to the two bytes.
\<close>

theorem DecodeSegment_pads_3_with_three:
  "EncodeSegment ''ab'' = ''YWI''
   \<and> length ''YWI'' mod 4 = 3
   \<and> DecodeSegment_pad ''YWI'' = ''YWI===''
   \<and> DecodeSegment ''YWI'' = Inl (CorruptInputError 4)
   \<and> DecodeString ''YWI='' = Inr ''ab''"
  by (simp add: run_base64)

text \<open>
  C9, as stated: every string whose length is 1 modulo 4 fails to decode. The decoder
  skips line ends, so the five characters \<^verbatim>\<open>AAAA\<close> and a line feed decode to
  three zero bytes.
\<close>

theorem DecodeSegment_length_1_counterexample:
  "length (''AAAA'' @ [CHR 0x0A]) mod 4 = 1
   \<and> DecodeSegment (''AAAA'' @ [CHR 0x0A]) = Inr [CHR 0x00, CHR 0x00, CHR 0x00]"
  by (simp add: run_base64)

text \<open>
  C9, amended: every string whose length is 1 modulo 4 and that holds no carriage return
  and no line feed fails to decode, whatever else it holds.
\<close>

theorem DecodeSegment_length_1_fails:
  assumes "length seg mod 4 = 1"
    and "CHR 0x0A \<notin> set seg" and "CHR 0x0D \<notin> set seg"
  shows "\<exists>e. DecodeSegment seg = Inl e"
proof (cases "DecodeSegment seg")
  case (Inl e)
  then show ?thesis by blast
next
  case (Inr out)
  have "\<forall>c\<in>set seg. \<not> is_newline c"
    using assms(2,3) by (auto simp: is_newline_def)
  moreover have "decode_from 0 [] seg = Inr out"
    using Inr assms(1) by (simp add: DecodeSegment_def DecodeSegment_pad_def DecodeString_def)
  ultimately have "(length ([] :: nat list) + length seg) mod 4 = 0"
    by (intro decode_from_Inr_length) simp_all
  with assms(1) show ?thesis by simp
qed

theorem DecodeSegment_length_1_fails_witness:
  "length ''AAAAA'' mod 4 = 1
   \<and> CHR 0x0A \<notin> set ''AAAAA'' \<and> CHR 0x0D \<notin> set ''AAAAA''
   \<and> (\<exists>e. DecodeSegment ''AAAAA'' = Inl e)
   \<and> DecodeSegment ''AAAAA'' = Inl (CorruptInputError 4)"
proof -
  have h1: "length ''AAAAA'' mod 4 = 1" by simp
  have h2: "CHR 0x0A \<notin> set ''AAAAA''" by simp
  have h3: "CHR 0x0D \<notin> set ''AAAAA''" by simp
  have "DecodeSegment ''AAAAA'' = Inl (CorruptInputError 4)"
    by (simp add: run_base64)
  then show ?thesis
    using h1 h2 h3 DecodeSegment_length_1_fails [OF h1 h2 h3] by simp
qed

section \<open>Signing and parsing back\<close>

lemma Split_from_no_sep:
  assumes "sep \<notin> set s"
  shows "Split_from piece s sep = [piece @ s]"
  using assms by (induction s arbitrary: piece) auto

lemma Split_from_sep:
  assumes "sep \<notin> set s"
  shows "Split_from piece (s @ sep # rest) sep = (piece @ s) # Split_from [] rest sep"
  using assms by (induction s arbitrary: piece) auto

lemma length_Split_from: "length (Split_from piece s sep) = Suc (count_list s sep)"
  by (induction s arbitrary: piece) auto

lemma length_Split: "length (Split s sep) = Suc (count_list s sep)"
  by (simp add: Split_def length_Split_from)

lemma Split_3:
  assumes "sep \<notin> set a" and "sep \<notin> set b" and "sep \<notin> set c"
  shows "Split (a @ sep # b @ sep # c) sep = [a, b, c]"
  using assms by (simp add: Split_def Split_from_sep Split_from_no_sep)

lemma exp_passed_cong:
  assumes "map_of claims' = map_of claims"
  shows "exp_passed env claims' = exp_passed env claims"
  by (simp add: exp_passed_def assms)

lemma nbf_ahead_cong:
  assumes "map_of claims' = map_of claims"
  shows "nbf_ahead env claims' = nbf_ahead env claims"
  by (simp add: nbf_ahead_def assms)

lemma decode_map_EncodeSegment:
  assumes "length src mod 3 \<noteq> 2"
  shows "decode_map env (EncodeSegment src) = json_Unmarshal env src"
  by (simp add: decode_map_def DecodeSegment_EncodeSegment [OF assms])

text \<open>
  C1, as stated: for every pair of maps and every key, the signed string of a new token
  parses back to a valid token. A claim \<^verbatim>\<open>exp\<close> that is in the past when the token
  is parsed makes the token invalid, as the package means it to: with the clock at 2, the
  token with the claim \<^verbatim>\<open>exp\<close> of 1 is signed, and parsed back with the same key it
  has its claims, is not valid, and comes with the Expired error.
\<close>

theorem round_trip_counterexample:
  "SignedString (example_env 2) (New toy_method\<lparr>Claims := [(''exp'', JNumber 1)]\<rparr>) ''k''
     = Inr ''eyJhbGciOiJ0b3kiLCJ0eXAiOiJKV1QifQ.eyJleHAiOjF9.ABAR''
   \<and> map_option (\<lambda>token. (Claims token, Valid token))
       (fst (Parse (example_env 2) ''eyJhbGciOiJ0b3kiLCJ0eXAiOiJKV1QifQ.eyJleHAiOjF9.ABAR''
               (\<lambda>t. Inr ''k'')))
     = Some ([(''exp'', JNumber 1)], False)
   \<and> snd (Parse (example_env 2) ''eyJhbGciOiJ0b3kiLCJ0eXAiOiJKV1QifQ.eyJleHAiOjF9.ABAR''
               (\<lambda>t. Inr ''k''))
     = (Some \<lparr>err = ''Token is expired'', Malformed = False, Unverifiable = False,
              SignatureInvalid = False, Expired = True, NotValidYet = False\<rparr>,
        [Keyfunc_call, Verify_call])"
  by (simp add: run_Parse run_json run_base64)

text \<open>
  The other ways in which the package, as it is meant to work, does not give the claims
  back as a valid token. Each is shown on a token that \<^verbatim>\<open>SignedString\<close> signs.

  The JSON library does not read every map back as it wrote it: it writes a byte that
  stands in no UTF-8 text as the replacement character, so the claim \<^verbatim>\<open>ab\<close> with
  the one byte \<^verbatim>\<open>0xFF\<close> comes back, in a valid token, with three other bytes.
\<close>

lemma round_trip_changes_claims:
  "SignedString (example_env 2) (New toy_method\<lparr>Claims := [(''ab'', JString [CHR 0xFF])]\<rparr>) ''k''
     = Inr ''eyJhbGciOiJ0b3kiLCJ0eXAiOiJKV1QifQ.eyJhYiI6Ilx1ZmZmZCJ9.ABLL''
   \<and> map_option (\<lambda>token. (Claims token, Valid token))
       (fst (Parse (example_env 2) ''eyJhbGciOiJ0b3kiLCJ0eXAiOiJKV1QifQ.eyJhYiI6Ilx1ZmZmZCJ9.ABLL''
               (\<lambda>t. Inr ''k'')))
     = Some ([(''ab'', JString [CHR 0xEF, CHR 0xBF, CHR 0xBD])], True)
   \<and> snd (Parse (example_env 2) ''eyJhbGciOiJ0b3kiLCJ0eXAiOiJKV1QifQ.eyJhYiI6Ilx1ZmZmZCJ9.ABLL''
               (\<lambda>t. Inr ''k''))
     = (None, [Keyfunc_call, Verify_call])"
  by (simp add: run_Parse run_json run_base64)

text \<open>A claim \<^verbatim>\<open>nbf\<close> that is still ahead when the token is parsed.\<close>

lemma round_trip_not_yet_valid:
  "SignedString (example_env 2) (New toy_method\<lparr>Claims := [(''nbf'', JNumber 10)]\<rparr>) ''k''
     = Inr ''eyJhbGciOiJ0b3kiLCJ0eXAiOiJKV1QifQ.eyJuYmYiOjEwfQ.ABE_''
   \<and> snd (Parse (example_env 2) ''eyJhbGciOiJ0b3kiLCJ0eXAiOiJKV1QifQ.eyJuYmYiOjEwfQ.ABE_''
               (\<lambda>t. Inr ''k''))
     = (Some \<lparr>err = ''Token is not valid yet'', Malformed = False, Unverifiable = False,
              SignatureInvalid = False, Expired = False, NotValidYet = True\<rparr>,
        [Keyfunc_call, Verify_call])"
  by (simp add: run_Parse run_json run_base64)

text \<open>A method whose name the registry does not know.\<close>

lemma round_trip_unregistered:
  "SignedString (example_env 2)
     (New (toy_method\<lparr>Alg := ''tox''\<rparr>)\<lparr>Claims := [(''a'', JNumber 1)]\<rparr>) ''k''
     = Inr ''eyJhbGciOiJ0b3giLCJ0eXAiOiJKV1QifQ.eyJhIjoxfQ.AA_L''
   \<and> snd (Parse (example_env 2) ''eyJhbGciOiJ0b3giLCJ0eXAiOiJKV1QifQ.eyJhIjoxfQ.AA_L''
               (\<lambda>t. Inr ''k''))
     = (Some \<lparr>err = ''Signing method (alg) is unavailable.'', Malformed = False,
              Unverifiable = True, SignatureInvalid = False, Expired = False,
              NotValidYet = False\<rparr>, [])"
  by (simp add: run_Parse run_json run_base64)

text \<open>A method whose signature holds a dot, so that the signed string has four segments.\<close>

lemma round_trip_dotted_signature:
  "SignedString (example_env 2)
     (New (toy_method\<lparr>Sign := \<lambda>signingString key. Inr ''A.B''\<rparr>)
        \<lparr>Claims := [(''a'', JNumber 1)]\<rparr>) ''k''
     = Inr ''eyJhbGciOiJ0b3kiLCJ0eXAiOiJKV1QifQ.eyJhIjoxfQ.A.B''
   \<and> Parse (example_env 2) ''eyJhbGciOiJ0b3kiLCJ0eXAiOiJKV1QifQ.eyJhIjoxfQ.A.B'' (\<lambda>t. Inr ''k'')
     = (None,
        Some \<lparr>err = ''Token contains an invalid number of segments'', Malformed = True,
              Unverifiable = False, SignatureInvalid = False, Expired = False,
              NotValidYet = False\<rparr>, [])"
  by (simp add: run_Parse run_json run_base64)

text \<open>
  C1, amended. Take a token made by \<^verbatim>\<open>New\<close> with claims put in by the caller.
  Suppose that the header and the claims serialise and that \<^verbatim>\<open>json.Unmarshal\<close>
  reads each serialisation back to an equal map; that neither serialisation has a length
  of 2 modulo 3 (so that neither encoded segment has a length of 3 modulo 4); that the
  method is registered under its name, signs the signing string with the key, gives a
  signature without a dot, and verifies it with the key; and that the claims hold no
  number \<^verbatim>\<open>exp\<close> with \<^verbatim>\<open>int64(exp)\<close> before the current time and no number
  \<^verbatim>\<open>nbf\<close> with \<^verbatim>\<open>int64(nbf)\<close> after it. Then \<^verbatim>\<open>SignedString\<close> returns a
  string, and \<^verbatim>\<open>Parse\<close> of that string, with a callback that returns the key,
  returns no error and a token that is valid and whose claims are the original claims.
\<close>

theorem round_trip:
  assumes "json_Marshal env (Header (New method)) = Inr headerBytes"
    and "json_Unmarshal env headerBytes = Inr header"
    and "map_of header = map_of (Header (New method))"
    and "json_Marshal env claims = Inr claimBytes"
    and "json_Unmarshal env claimBytes = Inr claims'"
    and "map_of claims' = map_of claims"
    and "length headerBytes mod 3 \<noteq> 2"
    and "length claimBytes mod 3 \<noteq> 2"
    and "GetSigningMethod env (Alg method) = Some method"
    and "Sign method (Join [EncodeSegment headerBytes, EncodeSegment claimBytes] ''.'') key
           = Inr sig"
    and "CHR ''.'' \<notin> set sig"
    and "Verify method (Join [EncodeSegment headerBytes, EncodeSegment claimBytes] ''.'') sig key
           = None"
    and "\<not> exp_passed env claims"
    and "\<not> nbf_ahead env claims"
    and "tokenString = Join [EncodeSegment headerBytes, EncodeSegment claimBytes, sig] ''.''"
  shows "SignedString env (New method\<lparr>Claims := claims\<rparr>) key = Inr tokenString
         \<and> (\<exists>token.
               Parse env tokenString (\<lambda>t. Inr key)
                 = (Some token, None, [Keyfunc_call, Verify_call])
               \<and> map_of (Claims token) = map_of claims
               \<and> Valid token = True
               \<and> Raw token = tokenString)"
proof -
  let ?h = "EncodeSegment headerBytes" and ?c = "EncodeSegment claimBytes"
  have hdr: "Header (New method\<lparr>Claims := claims\<rparr>) = Header (New method)"
    by simp
  have "SigningString env (New method\<lparr>Claims := claims\<rparr>) = Inr (Join [?h, ?c] ''.'')"
    unfolding SigningString_def hdr using assms(1,4) by simp
  then have signed: "SignedString env (New method\<lparr>Claims := claims\<rparr>) key = Inr tokenString"
    using assms(10,15) by (simp add: SignedString_def New_def)
  have "tokenString = ?h @ CHR ''.'' # ?c @ CHR ''.'' # sig"
    using assms(15) by simp
  then have split: "Split tokenString (CHR ''.'') = [?h, ?c, sig]"
    using Split_3 [OF dot_not_in_EncodeSegment dot_not_in_EncodeSegment assms(11)] by simp
  have dh: "decode_map env ?h = Inr header"
    using decode_map_EncodeSegment [OF assms(7)] assms(2) by simp
  have dc: "decode_map env ?c = Inr claims'"
    using decode_map_EncodeSegment [OF assms(8)] assms(5) by simp
  have alg: "map_of header ''alg'' = Some (JString (Alg method))"
    unfolding assms(3) by (simp add: New_def)
  have times: "\<not> exp_passed env claims'" "\<not> nbf_ahead env claims'"
    using assms(13,14) exp_passed_cong [OF assms(6)] nbf_ahead_cong [OF assms(6)] by simp_all
  have "Parse env tokenString (\<lambda>t. Inr key) =
          (Some \<lparr>Raw = tokenString, Header = header, Claims = claims',
                 Method = Some method, Signature = [], Valid = True\<rparr>,
           None, [Keyfunc_call, Verify_call])"
    unfolding Parse_validates [OF split dh dc alg assms(9)]
    using times assms(12)
    by (simp add: Parse_validate_def check_signature_def check_exp_fields check_nbf_fields
        ValidationError_Valid_def no_error_def)
  with signed assms(6) show ?thesis by simp
qed

theorem round_trip_witness:
  "json_Marshal (example_env 2) (Header (New toy_method)) = Inr ''{\"alg\":\"toy\",\"typ\":\"JWT\"}''
   \<and> json_Unmarshal (example_env 2) ''{\"alg\":\"toy\",\"typ\":\"JWT\"}''
       = Inr [(''alg'', JString ''toy''), (''typ'', JString ''JWT'')]
   \<and> map_of [(''alg'', JString ''toy''), (''typ'', JString ''JWT'')]
       = map_of (Header (New toy_method))
   \<and> json_Marshal (example_env 2) [(''exp'', JNumber 10)] = Inr ''{\"exp\":10}''
   \<and> json_Unmarshal (example_env 2) ''{\"exp\":10}'' = Inr [(''exp'', JNumber 10)]
   \<and> length ''{\"alg\":\"toy\",\"typ\":\"JWT\"}'' mod 3 \<noteq> 2
   \<and> length ''{\"exp\":10}'' mod 3 \<noteq> 2
   \<and> GetSigningMethod (example_env 2) (Alg toy_method) = Some toy_method
   \<and> Sign toy_method ''eyJhbGciOiJ0b3kiLCJ0eXAiOiJKV1QifQ.eyJleHAiOjEwfQ'' ''k'' = Inr ''ABEF''
   \<and> Verify toy_method ''eyJhbGciOiJ0b3kiLCJ0eXAiOiJKV1QifQ.eyJleHAiOjEwfQ'' ''ABEF'' ''k'' = None
   \<and> \<not> exp_passed (example_env 2) [(''exp'', JNumber 10)]
   \<and> \<not> nbf_ahead (example_env 2) [(''exp'', JNumber 10)]
   \<and> SignedString (example_env 2) (New toy_method\<lparr>Claims := [(''exp'', JNumber 10)]\<rparr>) ''k''
       = Inr ''eyJhbGciOiJ0b3kiLCJ0eXAiOiJKV1QifQ.eyJleHAiOjEwfQ.ABEF''
   \<and> (\<exists>token.
         Parse (example_env 2) ''eyJhbGciOiJ0b3kiLCJ0eXAiOiJKV1QifQ.eyJleHAiOjEwfQ.ABEF''
           (\<lambda>t. Inr ''k'') = (Some token, None, [Keyfunc_call, Verify_call])
         \<and> map_of (Claims token) = map_of [(''exp'', JNumber 10)]
         \<and> Valid token = True
         \<and> Raw token = ''eyJhbGciOiJ0b3kiLCJ0eXAiOiJKV1QifQ.eyJleHAiOjEwfQ.ABEF'')
   \<and> map_option (\<lambda>token. (Claims token, Valid token))
       (fst (Parse (example_env 2) ''eyJhbGciOiJ0b3kiLCJ0eXAiOiJKV1QifQ.eyJleHAiOjEwfQ.ABEF''
               (\<lambda>t. Inr ''k'')))
     = Some ([(''exp'', JNumber 10)], True)"
proof -
  have h1: "json_Marshal (example_env 2) (Header (New toy_method))
              = Inr ''{\"alg\":\"toy\",\"typ\":\"JWT\"}''"
    by (simp add: example_env_def New_def toy_method_def run_json)
  have h2: "json_Unmarshal (example_env 2) ''{\"alg\":\"toy\",\"typ\":\"JWT\"}''
              = Inr [(''alg'', JString ''toy''), (''typ'', JString ''JWT'')]"
    by (simp add: example_env_def run_json)
  have h3: "map_of [(''alg'', JString ''toy''), (''typ'', JString ''JWT'')]
              = map_of (Header (New toy_method))"
    by (rule ext) (simp add: New_def toy_method_def)
  have h4: "json_Marshal (example_env 2) [(''exp'', JNumber 10)] = Inr ''{\"exp\":10}''"
    by (simp add: example_env_def run_json)
  have h5: "json_Unmarshal (example_env 2) ''{\"exp\":10}'' = Inr [(''exp'', JNumber 10)]"
    by (simp add: example_env_def run_json)
  have h6: "map_of [(''exp'', JNumber 10)] = map_of [(''exp'', JNumber 10)]"
    by simp
  have h7: "length ''{\"alg\":\"toy\",\"typ\":\"JWT\"}'' mod 3 \<noteq> 2"
    by simp
  have h8: "length ''{\"exp\":10}'' mod 3 \<noteq> 2"
    by simp
  have h9: "GetSigningMethod (example_env 2) (Alg toy_method) = Some toy_method"
    by (simp add: example_env_def toy_method_def)
  have e1: "EncodeSegment ''{\"alg\":\"toy\",\"typ\":\"JWT\"}'' = ''eyJhbGciOiJ0b3kiLCJ0eXAiOiJKV1QifQ''"
    by (simp add: run_base64)
  have e2: "EncodeSegment ''{\"exp\":10}'' = ''eyJleHAiOjEwfQ''"
    by (simp add: run_base64)
  have s: "Sign toy_method ''eyJhbGciOiJ0b3kiLCJ0eXAiOiJKV1QifQ.eyJleHAiOjEwfQ'' ''k'' = Inr ''ABEF''"
    by (simp add: toy_method_def toy_digest_def run_base64)
  have v: "Verify toy_method ''eyJhbGciOiJ0b3kiLCJ0eXAiOiJKV1QifQ.eyJleHAiOjEwfQ'' ''ABEF'' ''k'' = None"
    by (simp add: toy_method_def toy_digest_def run_base64)
  have h10: "Sign toy_method
               (Join [EncodeSegment ''{\"alg\":\"toy\",\"typ\":\"JWT\"}'', EncodeSegment ''{\"exp\":10}''] ''.'')
               ''k'' = Inr ''ABEF''"
    unfolding e1 e2 using s by simp
  have h11: "CHR ''.'' \<notin> set ''ABEF''"
    by simp
  have h12: "Verify toy_method
               (Join [EncodeSegment ''{\"alg\":\"toy\",\"typ\":\"JWT\"}'', EncodeSegment ''{\"exp\":10}''] ''.'')
               ''ABEF'' ''k'' = None"
    unfolding e1 e2 using v by simp
  have h13: "\<not> exp_passed (example_env 2) [(''exp'', JNumber 10)]"
    by (simp add: exp_passed_def int64_def example_env_def)
  have h14: "\<not> nbf_ahead (example_env 2) [(''exp'', JNumber 10)]"
    by (simp add: nbf_ahead_def)
  have h15: "''eyJhbGciOiJ0b3kiLCJ0eXAiOiJKV1QifQ.eyJleHAiOjEwfQ.ABEF''
               = Join [EncodeSegment ''{\"alg\":\"toy\",\"typ\":\"JWT\"}'',
                       EncodeSegment ''{\"exp\":10}'', ''ABEF''] ''.''"
    unfolding e1 e2 by simp
  have run: "map_option (\<lambda>token. (Claims token, Valid token))
       (fst (Parse (example_env 2) ''eyJhbGciOiJ0b3kiLCJ0eXAiOiJKV1QifQ.eyJleHAiOjEwfQ.ABEF''
               (\<lambda>t. Inr ''k'')))
     = Some ([(''exp'', JNumber 10)], True)"
    by (simp add: run_Parse run_json run_base64)
  show ?thesis
    using h1 h2 h3 h4 h5 h7 h8 h9 s v h13 h14 run
      round_trip [OF h1 h2 h3 h4 h5 h6 h7 h8 h9 h10 h11 h12 h13 h14 h15]
    by simp
qed

text \<open>
  The lengths left out of the amended claim are those of the slip of C2. The token that
  \<^verbatim>\<open>New\<close> makes, with no claim at all, is among them: its claims serialise to the
  two bytes \<^verbatim>\<open>{}\<close>, the segment \<^verbatim>\<open>e30\<close>, and \<^verbatim>\<open>Parse\<close> reports its own
  signed string as malformed.
\<close>

lemma round_trip_of_no_claims:
  "SignedString (example_env 2) (New toy_method) ''k''
     = Inr ''eyJhbGciOiJ0b3kiLCJ0eXAiOiJKV1QifQ.e30.AAy2''
   \<and> snd (Parse (example_env 2) ''eyJhbGciOiJ0b3kiLCJ0eXAiOiJKV1QifQ.e30.AAy2'' (\<lambda>t. Inr ''k''))
     = (Some \<lparr>err = ''illegal base64 data at input byte 4'', Malformed = True,
              Unverifiable = False, SignatureInvalid = False, Expired = False,
              NotValidYet = False\<rparr>, [])"
  by (simp add: run_Parse run_json run_base64)

end
